theory Spec2Isabelle
  imports Main "HOL-Library.Sublist" "HOL-Library.AList"
begin

section \<open>JavaScript values\<close>

text \<open>
  The component of \<^verbatim>\<open>src/unnamed/part_000\<close> (\<^verbatim>\<open>InputAddress\<close>) handles values whose
  run-time shape is wider than a single HOL type: a prop typed
  \<^verbatim>\<open>string | Uint8Array | string[] | null\<close> and optional, and whatever the browser store
  returns for the key \<^verbatim>\<open>options:InputAddress\<close> (any JSON value, or \<^verbatim>\<open>undefined\<close> when the
  key is absent). One datatype covers them. Numbers are the integral ones; an object is
  the list of its own properties.
\<close>

datatype jsval =
    JUndefined
  | JNull
  | JBool bool
  | JNum int
  | JStr string
  | JBytes "nat list"
  | JArr "jsval list"
  | JObj "(string \<times> jsval) list"

text \<open>What \<^verbatim>\<open>!!v\<close> is: an empty \<^verbatim>\<open>Uint8Array\<close>, array or object is still truthy.\<close>

fun truthy :: "jsval \<Rightarrow> bool" where
  "truthy JUndefined = False"
| "truthy JNull = False"
| "truthy (JBool b) = b"
| "truthy (JNum n) = (n \<noteq> 0)"
| "truthy (JStr s) = (s \<noteq> [])"
| "truthy (JBytes bs) = True"
| "truthy (JArr vs) = True"
| "truthy (JObj kvs) = True"

text \<open>
  \<^verbatim>\<open>TypeError\<close> is what the engine raises on a property access on \<^verbatim>\<open>undefined\<close> or
  \<^verbatim>\<open>null\<close>; \<^verbatim>\<open>Thrown\<close> is an exception raised inside an imported function.
\<close>

datatype error = TypeError | Thrown

text \<open>
  \<^verbatim>\<open>v[k]\<close> for a key that names no built-in property (the keys read here are
  \<^verbatim>\<open>defaults\<close> and the keyring's option types): own properties of an object, \<^verbatim>\<open>undefined\<close>
  on a primitive or an array, a \<^verbatim>\<open>TypeError\<close> on \<^verbatim>\<open>undefined\<close> and \<^verbatim>\<open>null\<close>.
\<close>

fun get_prop :: "jsval \<Rightarrow> string \<Rightarrow> error + jsval" where
  "get_prop JUndefined k = Inl TypeError"
| "get_prop JNull k = Inl TypeError"
| "get_prop (JObj kvs) k = Inr (case map_of kvs k of None \<Rightarrow> JUndefined | Some v \<Rightarrow> v)"
| "get_prop v k = Inr JUndefined"

text \<open>
  \<^verbatim>\<open>v[k] = x\<close> in a module (strict mode), returning \<^verbatim>\<open>v\<close> as the store will serialise it:
  an object gets the property; \<^verbatim>\<open>undefined\<close>, \<^verbatim>\<open>null\<close> and the primitives raise a
  \<^verbatim>\<open>TypeError\<close>; an array takes the property, which JSON serialisation then drops.
\<close>

fun set_prop :: "jsval \<Rightarrow> string \<Rightarrow> jsval \<Rightarrow> error + jsval" where
  "set_prop (JObj kvs) k x = Inr (JObj (AList.update k x kvs))"
| "set_prop (JArr vs) k x = Inr (JArr vs)"
| "set_prop (JBytes bs) k x = Inr (JBytes bs)"
| "set_prop v k x = Inl TypeError"

subsection \<open>\<^verbatim>\<open>toString\<close>\<close>

function string_of_nat :: "nat \<Rightarrow> string" where
  "string_of_nat n =
     (if n < 10 then [''0123456789'' ! n]
      else string_of_nat (n div 10) @ [''0123456789'' ! (n mod 10)])"
  by pat_completeness auto
termination
  by (relation "measure id") auto

declare string_of_nat.simps [simp del]

fun join_comma :: "string list \<Rightarrow> string" where
  "join_comma [] = []"
| "join_comma [s] = s"
| "join_comma (s # t # ss) = s @ '','' @ join_comma (t # ss)"

text \<open>
  \<^verbatim>\<open>v.toString()\<close>. A number is printed in decimal digits, which is what JavaScript
  prints for an integer below \<open>10\<^sup>2\<^sup>1\<close> in magnitude; the exponent form of the larger
  ones is not modelled.
\<close>

fun js_toString :: "jsval \<Rightarrow> string" where
  "js_toString JUndefined = ''undefined''"
| "js_toString JNull = ''null''"
| "js_toString (JBool b) = (if b then ''true'' else ''false'')"
| "js_toString (JNum n) =
     (if n < 0 then ''-'' @ string_of_nat (nat (- n)) else string_of_nat (nat n))"
| "js_toString (JStr s) = s"
| "js_toString (JBytes bs) = join_comma (map string_of_nat bs)"
| "js_toString (JArr vs) =
     join_comma (map (\<lambda>v. if v = JUndefined \<or> v = JNull then [] else js_toString v) vs)"
| "js_toString (JObj kvs) = ''[object Object]''"

section \<open>Options and the imported functions\<close>

text \<open>
  A \<^verbatim>\<open>KeyringSectionOption\<close>, and the \<^verbatim>\<open>Option\<close> made of one; \<open>value\<close> is \<open>None\<close> for
  \<^verbatim>\<open>null\<close>, the value of a section header. The rendered \<^verbatim>\<open>text\<close> node is left out.
\<close>

record Option =
  key :: string
  "value" :: "string option"
  name :: string

text \<open>
  The functions the component imports and this repository's \<^verbatim>\<open>toAddress\<close>,
  \<^verbatim>\<open>createItem\<close>, whose sources are not part of the excerpt, are parameters. \<open>'r\<close> is the
  state of the keyring's address registry. \<^verbatim>\<open>toAddress\<close> returns a string or
  \<^verbatim>\<open>undefined\<close> (\<open>None\<close>), or throws: every call of it stands in a \<^verbatim>\<open>try\<close>.
  \<^verbatim>\<open>keyring.getAccount(a)\<close> gives \<^verbatim>\<open>pair.meta.name\<close> when there is a pair,
  \<^verbatim>\<open>keyring.getAddress(a)\<close> gives \<^verbatim>\<open>meta.name\<close> and \<^verbatim>\<open>meta.isRecent\<close>; the second argument
  of \<^verbatim>\<open>createItem\<close> is \<open>None\<close> where the call leaves it out.
\<close>

record 'r ext =
  toAddress :: "jsval \<Rightarrow> error + string option"
  isAddress :: "string \<Rightarrow> bool"
  getAccount :: "'r \<Rightarrow> string \<Rightarrow> string option option"
  getAddress :: "'r \<Rightarrow> string \<Rightarrow> (string option \<times> bool option) option"
  createOptionItem :: "string \<Rightarrow> string option \<Rightarrow> Option"
  createItem :: "Option \<Rightarrow> bool option \<Rightarrow> Option"
  saveRecent :: "'r \<Rightarrow> string \<Rightarrow> Option \<times> 'r"

definition DEFAULT_TYPE :: string where
  "DEFAULT_TYPE = ''all''"

text \<open>\<^verbatim>\<open>toAddress(value) || null\<close> inside \<^verbatim>\<open>try\<close>: \<open>None\<close> is \<^verbatim>\<open>null\<close>.\<close>

definition transformToAddress :: "'r ext \<Rightarrow> jsval \<Rightarrow> string option" where
  "transformToAddress x v =
     (case toAddress x v of
        Inl e \<Rightarrow> None
      | Inr None \<Rightarrow> None
      | Inr (Some a) \<Rightarrow> if a = [] then None else Some a)"

definition transformToAccountId :: "'r ext \<Rightarrow> string \<Rightarrow> string option" where
  "transformToAccountId x v =
     (if v = [] then None
      else (case transformToAddress x (JStr v) of
              None \<Rightarrow> None
            | Some accountId \<Rightarrow> if accountId = [] then None else Some accountId))"

definition createOption :: "'r ext \<Rightarrow> 'r \<Rightarrow> string \<Rightarrow> Option" where
  "createOption x r address =
     (let (name, isRecent) =
            (case getAccount x r address of
               Some pair_name \<Rightarrow> (pair_name, None)
             | None \<Rightarrow>
                 (case getAddress x r address of
                    Some (addr_name, addr_isRecent) \<Rightarrow> (addr_name, addr_isRecent)
                  | None \<Rightarrow> (None, Some True)))
      in createItem x (createOptionItem x address name) (Some (\<not> (isRecent = Some True))))"

section \<open>The persisted preference store\<close>

text \<open>
  The store is the value held under \<^verbatim>\<open>STORAGE_KEY\<close>: \<open>JUndefined\<close> when there is none.
  \<^verbatim>\<open>readOptions\<close> is \<^verbatim>\<open>store.get(STORAGE_KEY) || { defaults: {} }\<close>.
\<close>

definition readOptions :: "jsval \<Rightarrow> jsval" where
  "readOptions store = (if truthy store then store else JObj [(''defaults'', JObj [])])"

definition type_or_default :: "string option \<Rightarrow> string" where
  "type_or_default t = (case t of None \<Rightarrow> DEFAULT_TYPE | Some s \<Rightarrow> s)"

definition getLastValue :: "jsval \<Rightarrow> string option \<Rightarrow> error + jsval" where
  "getLastValue store t =
     (case get_prop (readOptions store) ''defaults'' of
        Inl e \<Rightarrow> Inl e
      | Inr d \<Rightarrow> get_prop d (type_or_default t))"

text \<open>
  \<^verbatim>\<open>options.defaults[type] = value; store.set(STORAGE_KEY, options)\<close>: the result is the
  new content of the store. The assignment goes through the reference
  \<^verbatim>\<open>options.defaults\<close>, so \<^verbatim>\<open>options\<close> holds the updated object.
\<close>

definition setLastValue :: "jsval \<Rightarrow> string option \<Rightarrow> string \<Rightarrow> error + jsval" where
  "setLastValue store t v =
     (let options = readOptions store in
      case get_prop options ''defaults'' of
        Inl e \<Rightarrow> Inl e
      | Inr d \<Rightarrow>
          (case set_prop d (type_or_default t) (JStr v) of
             Inl e \<Rightarrow> Inl e
           | Inr d' \<Rightarrow>
               (case options of
                  JObj kvs \<Rightarrow> Inr (JObj (AList.update ''defaults'' d' kvs))
                | _ \<Rightarrow> Inr options)))"

section \<open>Deduplication\<close>

text \<open>
  \<^verbatim>\<open>all.some(({ key }, eindex) => eindex !== index && key === o.key)\<close>: \<open>eindex\<close> is a
  position in the accumulator, \<open>index\<close> the position of \<open>opt\<close> in the input.
\<close>

definition hasDupe :: "Option list \<Rightarrow> Option \<Rightarrow> nat \<Rightarrow> bool" where
  "hasDupe all opt index =
     list_ex (\<lambda>(e, eindex). eindex \<noteq> index \<and> key e = key opt) (zip all [0..<length all])"

fun dedupe_reduce :: "Option list \<Rightarrow> nat \<Rightarrow> Option list \<Rightarrow> Option list" where
  "dedupe_reduce all index [] = all"
| "dedupe_reduce all index (opt # rest) =
     dedupe_reduce (if \<not> hasDupe all opt index then all @ [opt] else all) (Suc index) rest"

definition dedupe :: "Option list \<Rightarrow> Option list" where
  "dedupe options = dedupe_reduce [] 0 options"

text \<open>
  The claim's words, to compare \<^const>\<open>dedupe\<close> with: keep an entry unless its key was
  seen before.
\<close>

fun first_per_key :: "string set \<Rightarrow> Option list \<Rightarrow> Option list" where
  "first_per_key seen [] = []"
| "first_per_key seen (opt # rest) =
     (if key opt \<in> seen then first_per_key seen rest
      else opt # first_per_key (insert (key opt) seen) rest)"

section \<open>The component\<close>

text \<open>
  The props the logic reads. An optional prop is an \<open>option\<close> (\<open>None\<close>: left out, or
  \<^verbatim>\<open>null\<close> for \<open>filter_prop\<close>, of which only the truthiness is tested); \<open>defaultValue\<close> and
  \<open>value_prop\<close> are run-time values; of the two callbacks only their presence matters,
  what they are called with is part of each handler's result. \<open>optionsAll\<close> is the
  \<^verbatim>\<open>Record<string, Option[]>\<close> the keyring pushes.
\<close>

record props =
  defaultValue :: jsval
  filter_prop :: "string list option"
  isDisabled :: "bool option"
  isInput :: "bool option"
  isMultiple :: "bool option"
  has_onChange :: bool
  has_onChangeMulti :: bool
  options_prop :: "Option list option"
  optionsAll :: "(string \<Rightarrow> Option list option) option"
  type_prop :: "string option"
  value_prop :: jsval
  withExclude :: "bool option"

record state =
  lastValue :: jsval
  value_state :: jsval

definition flag :: "bool option \<Rightarrow> bool \<Rightarrow> bool" where
  "flag b dflt = (case b of None \<Rightarrow> dflt | Some v \<Rightarrow> v)"

definition js_of_address :: "string option \<Rightarrow> jsval" where
  "js_of_address a = (case a of None \<Rightarrow> JUndefined | Some s \<Rightarrow> JStr s)"

text \<open>\<^verbatim>\<open>value.map((v) => toAddress(v))\<close>: the first throw ends the loop.\<close>

fun map_toAddress :: "'r ext \<Rightarrow> jsval list \<Rightarrow> error + jsval list" where
  "map_toAddress x [] = Inr []"
| "map_toAddress x (v # vs) =
     (case toAddress x v of
        Inl e \<Rightarrow> Inl e
      | Inr a \<Rightarrow>
          (case map_toAddress x vs of
             Inl e \<Rightarrow> Inl e
           | Inr as \<Rightarrow> Inr (js_of_address a # as)))"

text \<open>
  \<open>None\<close> is the \<^verbatim>\<open>null\<close> of the \<^verbatim>\<open>catch\<close> branch (the state stays as it is), \<open>Some\<close> the
  new state. The stored last value is read only when the state holds none.
\<close>

definition getDerivedStateFromProps :: "'r ext \<Rightarrow> jsval \<Rightarrow> props \<Rightarrow> state \<Rightarrow> state option" where
  "getDerivedStateFromProps x store p st =
     (case (if truthy (lastValue st) then Inr (lastValue st) else getLastValue store (type_prop p)) of
        Inl e \<Rightarrow> None
      | Inr lv \<Rightarrow>
          (case value_prop p of
             JArr vs \<Rightarrow>
               (case map_toAddress x vs of
                  Inl e \<Rightarrow> None
                | Inr as \<Rightarrow> Some \<lparr>lastValue = lv, value_state = JArr as\<rparr>)
           | v \<Rightarrow>
               (case toAddress x v of
                  Inl e \<Rightarrow> None
                | Inr a \<Rightarrow>
                    Some \<lparr>lastValue = lv,
                          value_state = (if truthy (js_of_address a) then js_of_address a
                                         else JUndefined)\<rparr>)))"

subsection \<open>The filtered bucket\<close>

definition keeps :: "props \<Rightarrow> Option \<Rightarrow> bool" where
  "keeps p opt =
     (case filter_prop p of
        None \<Rightarrow> True
      | Some f \<Rightarrow>
          (case value opt of
             None \<Rightarrow> False
           | Some v \<Rightarrow>
               v \<noteq> [] \<and> (if flag (withExclude p) False then v \<notin> set f else v \<in> set f)))"

text \<open>\<^verbatim>\<open>optionsAll[type]\<close> is \<^verbatim>\<open>undefined\<close> for a type the record lacks, and \<^verbatim>\<open>reduce\<close> of it raises.\<close>

definition getFiltered :: "props \<Rightarrow> error + Option list" where
  "getFiltered p =
     (case optionsAll p of
        None \<Rightarrow> Inr []
      | Some oa \<Rightarrow>
          (case oa (type_or_default (type_prop p)) of
             None \<Rightarrow> Inl TypeError
           | Some bucket \<Rightarrow> Inr (filter (keeps p) (dedupe bucket))))"

text \<open>
  \<^verbatim>\<open>value === address\<close> for \<^verbatim>\<open>address = test && test.toString()\<close>: a falsy \<open>test\<close> is
  compared as it is, so \<^verbatim>\<open>null\<close> equals a \<^verbatim>\<open>null\<close> value and the empty string an empty one.
\<close>

definition same_address :: "string option \<Rightarrow> jsval \<Rightarrow> bool" where
  "same_address v test =
     (if truthy test then v = Some (js_toString test)
      else (case test of
              JNull \<Rightarrow> v = None
            | JStr s \<Rightarrow> v = Some s
            | _ \<Rightarrow> False))"

definition hasValue :: "props \<Rightarrow> jsval \<Rightarrow> error + bool" where
  "hasValue p test =
     (case getFiltered p of
        Inl e \<Rightarrow> Inl e
      | Inr available \<Rightarrow> Inr (list_ex (\<lambda>opt. same_address (value opt) test) available))"

text \<open>\<open>None\<close>: \<^verbatim>\<open>undefined\<close>, there is no option.\<close>

definition getLastOptionValue :: "props \<Rightarrow> error + Option option" where
  "getLastOptionValue p =
     (case getFiltered p of
        Inl e \<Rightarrow> Inl e
      | Inr available \<Rightarrow>
          Inr (if length available \<noteq> 0 then Some (available ! (length available - 1)) else None))"

subsection \<open>\<^verbatim>\<open>render\<close>\<close>

text \<open>
  \<^verbatim>\<open>(options && options.length !== 0) || (optionsAll && Object.keys(optionsAll[type]).length !== 0)\<close>;
  \<^verbatim>\<open>Object.keys(undefined)\<close> raises.
\<close>

definition hasOptions :: "props \<Rightarrow> error + bool" where
  "hasOptions p =
     (if (case options_prop p of None \<Rightarrow> False | Some os \<Rightarrow> length os \<noteq> 0) then Inr True
      else (case optionsAll p of
              None \<Rightarrow> Inr False
            | Some oa \<Rightarrow>
                (case oa (type_or_default (type_prop p)) of
                   None \<Rightarrow> Inl TypeError
                 | Some bucket \<Rightarrow> Inr (length bucket \<noteq> 0))))"

text \<open>
  The condition of line 174,
  \<^verbatim>\<open>isDisabled || (defaultValue && (this.hasValue(defaultValue) || type === 'allPlus'))\<close>,
  with \<^verbatim>\<open>hasValue\<close> called only where the operators before it let it be.
\<close>

definition usesDefault :: "props \<Rightarrow> error + bool" where
  "usesDefault p =
     (if flag (isDisabled p) False then Inr True
      else if truthy (defaultValue p) then
        (case hasValue p (defaultValue p) of
           Inl e \<Rightarrow> Inl e
         | Inr h \<Rightarrow> Inr (h \<or> type_or_default (type_prop p) = ''allPlus''))
      else Inr False)"

text \<open>
  Lines 171 to 179: \<^verbatim>\<open>lastOption\<close> first, then the argument of \<^verbatim>\<open>transformToAddress\<close>;
  \<^verbatim>\<open>lastOption && lastOption.value\<close> is \<^verbatim>\<open>undefined\<close> without an option and the option's
  value (\<^verbatim>\<open>null\<close> for a header) with one.
\<close>

definition actualValue :: "'r ext \<Rightarrow> props \<Rightarrow> state \<Rightarrow> error + string option" where
  "actualValue x p st =
     (case getLastOptionValue p of
        Inl e \<Rightarrow> Inl e
      | Inr lastOption \<Rightarrow>
          (case usesDefault p of
             Inl e \<Rightarrow> Inl e
           | Inr True \<Rightarrow> Inr (transformToAddress x (defaultValue p))
           | Inr False \<Rightarrow>
               (case hasValue p (lastValue st) of
                  Inl e \<Rightarrow> Inl e
                | Inr True \<Rightarrow> Inr (transformToAddress x (lastValue st))
                | Inr False \<Rightarrow>
                    Inr (transformToAddress x
                           (case lastOption of
                              None \<Rightarrow> JUndefined
                            | Some opt \<Rightarrow> (case value opt of None \<Rightarrow> JNull | Some v \<Rightarrow> JStr v))))))"

definition addActual :: "'r ext \<Rightarrow> 'r \<Rightarrow> props \<Rightarrow> string \<Rightarrow> error + Option list" where
  "addActual x r p actual =
     (case getFiltered p of
        Inl e \<Rightarrow> Inl e
      | Inr base \<Rightarrow>
          (case hasValue p (JStr actual) of
             Inl e \<Rightarrow> Inl e
           | Inr True \<Rightarrow> Inr base
           | Inr False \<Rightarrow> Inr (base @ [createOption x r actual])))"

text \<open>Lines 180 to 186, for the \<^verbatim>\<open>actualValue\<close> computed before.\<close>

definition actualOptions :: "'r ext \<Rightarrow> 'r \<Rightarrow> props \<Rightarrow> string option \<Rightarrow> error + Option list" where
  "actualOptions x r p actual =
     (case options_prop p of
        Some os \<Rightarrow> Inr (dedupe (map (\<lambda>opt. createItem x opt None) os))
      | None \<Rightarrow>
          (case actual of
             Some a \<Rightarrow> if flag (isDisabled p) False then Inr [createOption x r a] else addActual x r p a
           | None \<Rightarrow> getFiltered p))"

text \<open>What \<^verbatim>\<open>render\<close> returns: the notice, or the props it hands to \<^verbatim>\<open>Dropdown\<close>.\<close>

record dropdown =
  dd_defaultValue :: jsval
  dd_isDisabled :: bool
  dd_isMultiple :: "bool option"
  dd_options :: "Option list"
  dd_value :: jsval

datatype rendered = Static | Dropdown dropdown

definition render :: "'r ext \<Rightarrow> 'r \<Rightarrow> props \<Rightarrow> state \<Rightarrow> error + rendered" where
  "render x r p st =
     (case hasOptions p of
        Inl e \<Rightarrow> Inl e
      | Inr ho \<Rightarrow>
          if \<not> ho \<and> \<not> flag (isDisabled p) False then Inr Static
          else
            (case actualValue x p st of
               Inl e \<Rightarrow> Inl e
             | Inr actual \<Rightarrow>
                 (case actualOptions x r p actual of
                    Inl e \<Rightarrow> Inl e
                  | Inr opts \<Rightarrow>
                      Inr (Dropdown
                        \<lparr>dd_defaultValue =
                           (if flag (isMultiple p) False \<or> value_state st \<noteq> JUndefined then JUndefined
                            else (case actual of None \<Rightarrow> JNull | Some a \<Rightarrow> JStr a)),
                         dd_isDisabled = flag (isDisabled p) False,
                         dd_isMultiple = isMultiple p,
                         dd_options = opts,
                         dd_value =
                           (if flag (isMultiple p) False \<and> \<not> truthy (value_state st) then JArr []
                            else value_state st)\<rparr>))))"

subsection \<open>Selection changes\<close>

text \<open>
  \<^verbatim>\<open>onChange\<close> returns the new content of the store and what the caller's \<^verbatim>\<open>onChange\<close> was
  called with: \<open>None\<close> when there is no callback, \<open>Some None\<close> for \<^verbatim>\<open>null\<close>. The type is
  the prop as it is here (\<^verbatim>\<open>setLastValue\<close> defaults it), and \<^verbatim>\<open>hasValue\<close> is called only
  for a non-empty address and a callback.
\<close>

definition onChange ::
  "'r ext \<Rightarrow> jsval \<Rightarrow> props \<Rightarrow> string \<Rightarrow> error + (jsval \<times> string option option)" where
  "onChange x store p address =
     (case (if filter_prop p = None then setLastValue store (type_prop p) address else Inr store) of
        Inl e \<Rightarrow> Inl e
      | Inr store' \<Rightarrow>
          if \<not> has_onChange p then Inr (store', None)
          else if address = [] then Inr (store', Some None)
          else
            (case hasValue p (JStr address) of
               Inl e \<Rightarrow> Inl e
             | Inr h \<Rightarrow>
                 Inr (store',
                      Some (if h \<or> (type_prop p = Some ''allPlus'' \<and> isAddress x address)
                            then transformToAccountId x address else None))))"

text \<open>\<open>None\<close> when there is no callback, else the list the callback gets.\<close>

definition onChangeMulti :: "'r ext \<Rightarrow> props \<Rightarrow> string list \<Rightarrow> string list option" where
  "onChangeMulti x p addresses =
     (if has_onChangeMulti p
      then Some (List.map_filter (\<lambda>a. a) (map (transformToAccountId x) addresses))
      else None)"

subsection \<open>Search\<close>

text \<open>
  Strings are byte strings here: \<^verbatim>\<open>trim\<close> strips the ASCII white space and line ends,
  \<^verbatim>\<open>toLowerCase\<close> maps the ASCII capitals. The white space and the capitals beyond
  ASCII, which JavaScript strips and folds too, are not modelled; no statement below
  depends on what the two functions do to a string.
\<close>

definition is_space :: "char \<Rightarrow> bool" where
  "is_space c = (c \<in> set [CHR 0x09, CHR 0x0A, CHR 0x0B, CHR 0x0C, CHR 0x0D, CHR '' ''])"

definition trim :: "string \<Rightarrow> string" where
  "trim s = rev (dropWhile is_space (rev (dropWhile is_space s)))"

definition toLowerCase :: "string \<Rightarrow> string" where
  "toLowerCase s =
     map (\<lambda>c. case map_of (zip ''ABCDEFGHIJKLMNOPQRSTUVWXYZ'' ''abcdefghijklmnopqrstuvwxyz'') c of
                None \<Rightarrow> c
              | Some l \<Rightarrow> l) s"

fun includes_str :: "string \<Rightarrow> string \<Rightarrow> bool" where
  "includes_str [] q = (q = [])"
| "includes_str (c # cs) q = (prefix q (c # cs) \<or> includes_str cs q)"

definition matchesQuery :: "string \<Rightarrow> Option \<Rightarrow> bool" where
  "matchesQuery queryLower item =
     (case value item of
        None \<Rightarrow> False
      | Some v \<Rightarrow>
          v \<noteq> [] \<and>
          (includes_str (toLowerCase (name item)) queryLower \<or> includes_str (toLowerCase v) queryLower))"

text \<open>
  Lines 296 to 316: the matches, with the option of \<^verbatim>\<open>keyring.saveRecent\<close> pushed when
  there is none, and the registry after it.
\<close>

definition searchMatches ::
  "'r ext \<Rightarrow> 'r \<Rightarrow> props \<Rightarrow> Option list \<Rightarrow> string \<Rightarrow> Option list \<times> 'r" where
  "searchMatches x r p filteredOptions query0 =
     (let query = trim query0;
          queryLower = toLowerCase query;
          matches = filter (matchesQuery queryLower) filteredOptions
      in if flag (isInput p) True \<and> length matches = 0 then
           (case transformToAccountId x query of
              None \<Rightarrow> (matches, r)
            | Some accountId \<Rightarrow>
                (let (opt, r') = saveRecent x r accountId in (matches @ [opt], r')))
         else (matches, r))"

text \<open>
  Lines 318 to 324. \<^verbatim>\<open>matches[index + 1]\<close> is \<^verbatim>\<open>undefined\<close> past the end, and
  \<^verbatim>\<open>hasNext\<close> is truthy for a next item with a non-empty value.
\<close>

definition keepsMatch :: "Option list \<Rightarrow> Option \<times> nat \<Rightarrow> bool" where
  "keepsMatch matches = (\<lambda>(item, index).
     (let isLast = (int index = int (length matches) - 1);
          hasNext = (if index + 1 < length matches
                     then (case value (matches ! (index + 1)) of None \<Rightarrow> False | Some v \<Rightarrow> v \<noteq> [])
                     else False)
      in value item \<noteq> None \<or> (\<not> isLast \<and> hasNext)))"

definition dropHeaders :: "Option list \<Rightarrow> Option list" where
  "dropHeaders matches = map fst (filter (keepsMatch matches) (zip matches [0..<length matches]))"

definition onSearch ::
  "'r ext \<Rightarrow> 'r \<Rightarrow> props \<Rightarrow> Option list \<Rightarrow> string \<Rightarrow> Option list \<times> 'r" where
  "onSearch x r p filteredOptions query0 =
     (let (matches, r') = searchMatches x r p filteredOptions query0
      in (dropHeaders matches, r'))"

section \<open>Conditions the statements use\<close>

text \<open>
  The stored value is absent (falsy), or an object whose \<^verbatim>\<open>defaults\<close> is an object: the
  shapes \<^const>\<open>setLastValue\<close> itself leaves behind.
\<close>

definition has_defaults :: "jsval \<Rightarrow> bool" where
  "has_defaults store =
     (case get_prop (readOptions store) ''defaults'' of Inr (JObj d) \<Rightarrow> True | _ \<Rightarrow> False)"

text \<open>\<^verbatim>\<open>toAddress\<close> gives no address for \<open>v\<close>: it throws, or returns \<^verbatim>\<open>undefined\<close> or the empty string.\<close>

definition canonicalization_fails :: "'r ext \<Rightarrow> jsval \<Rightarrow> bool" where
  "canonicalization_fails x v =
     (case toAddress x v of Inl e \<Rightarrow> True | Inr None \<Rightarrow> True | Inr (Some a) \<Rightarrow> a = [])"

section \<open>Sample data\<close>

text \<open>
  Concrete inputs for the closed theorems below: two accounts, a second entry under the
  first one's key, a section header, and an instance of the imported functions in which
  the addresses are the strings that start with \<open>5\<close>, \<^verbatim>\<open>toAddress\<close> throws on one string,
  and the registry is the list of the recent addresses.
\<close>

definition alice :: Option where
  "alice = \<lparr>key = ''A'', value = Some ''5A1'', name = ''alice''\<rparr>"

definition bob :: Option where
  "bob = \<lparr>key = ''B'', value = Some ''5B1'', name = ''bob''\<rparr>"

definition alice_again :: Option where
  "alice_again = \<lparr>key = ''A'', value = Some ''5A2'', name = ''alice (old)''\<rparr>"

definition accounts_header :: Option where
  "accounts_header = \<lparr>key = ''header-accounts'', value = None, name = ''accounts''\<rparr>"

definition sample_ext :: "string list ext" where
  "sample_ext =
     \<lparr>toAddress = (\<lambda>v. case v of
                       JStr s \<Rightarrow> if s = ''boom'' then Inl Thrown
                                 else if prefix ''5'' s then Inr (Some s) else Inr None
                     | _ \<Rightarrow> Inr None),
      isAddress = (\<lambda>s. prefix ''5'' s),
      getAccount = (\<lambda>r a. None),
      getAddress = (\<lambda>r a. if a \<in> set r then Some (None, Some True) else None),
      createOptionItem = (\<lambda>a n. \<lparr>key = a, value = Some a, name = (case n of None \<Rightarrow> a | Some s \<Rightarrow> s)\<rparr>),
      createItem = (\<lambda>opt u. opt),
      saveRecent = (\<lambda>r a. (\<lparr>key = a, value = Some a, name = a\<rparr>, a # r))\<rparr>"

definition sample_props :: props where
  "sample_props =
     \<lparr>defaultValue = JUndefined,
      filter_prop = None,
      isDisabled = None,
      isInput = None,
      isMultiple = None,
      has_onChange = True,
      has_onChangeMulti = True,
      options_prop = None,
      optionsAll = Some [''all'' \<mapsto> [alice, bob]],
      type_prop = None,
      value_prop = JUndefined,
      withExclude = None\<rparr>"

definition fresh_state :: state where
  "fresh_state = \<lparr>lastValue = JUndefined, value_state = JUndefined\<rparr>"

lemma sample_props_fields:
  "defaultValue sample_props = JUndefined"
  "filter_prop sample_props = None"
  "isDisabled sample_props = None"
  "isInput sample_props = None"
  "isMultiple sample_props = None"
  "has_onChange sample_props = True"
  "has_onChangeMulti sample_props = True"
  "options_prop sample_props = None"
  "optionsAll sample_props = Some [''all'' \<mapsto> [alice, bob]]"
  "type_prop sample_props = None"
  "value_prop sample_props = JUndefined"
  "withExclude sample_props = None"
  by (simp_all add: sample_props_def)

lemma fresh_state_fields:
  "lastValue fresh_state = JUndefined" "value_state fresh_state = JUndefined"
  by (simp_all add: fresh_state_def)

section \<open>Deduplication keeps the first entry of every key\<close>

lemma zip_upt_index: "(e, i) \<in> set (zip all [0..<length all]) \<Longrightarrow> i < length all"
  by (auto simp: set_zip)

lemma fst_zip_upt: "fst ` set (zip all [0..<length all]) = set all"
proof -
  have "map fst (zip all [0..<length all]) = all" by (simp add: map_fst_zip)
  then have "set (map fst (zip all [0..<length all])) = set all" by simp
  then show ?thesis by (simp only: set_map)
qed

lemma hasDupe_key:
  assumes le: "length all \<le> index"
  shows "hasDupe all opt index = (key opt \<in> key ` set all)"
proof
  assume "hasDupe all opt index"
  then obtain e i where "(e, i) \<in> set (zip all [0..<length all])" "key e = key opt"
    unfolding hasDupe_def list_ex_iff by auto
  then have "e \<in> set all" by (meson set_zip_leftD)
  then have "key e \<in> key ` set all" by (rule imageI)
  with \<open>key e = key opt\<close> show "key opt \<in> key ` set all" by simp
next
  assume "key opt \<in> key ` set all"
  then obtain e where e: "e \<in> set all" "key e = key opt" by (auto simp only: image_iff)
  then have "e \<in> fst ` set (zip all [0..<length all])" by (simp only: fst_zip_upt)
  then obtain i where i: "(e, i) \<in> set (zip all [0..<length all])" by force
  then have "i \<noteq> index" using le zip_upt_index [OF i] by simp
  with i e show "hasDupe all opt index"
    unfolding hasDupe_def list_ex_iff by force
qed

lemma dedupe_reduce_first_per_key:
  "length all \<le> index \<Longrightarrow>
     dedupe_reduce all index options = all @ first_per_key (key ` set all) options"
proof (induction options arbitrary: all index)
  case Nil
  then show ?case by simp
next
  case (Cons opt rest)
  show ?case
  proof (cases "key opt \<in> key ` set all")
    case True
    then have hd: "hasDupe all opt index" using Cons.prems hasDupe_key [of all index opt] by blast
    have "length all \<le> Suc index" using Cons.prems by simp
    from Cons.IH [OF this] hd True show ?thesis by simp
  next
    case False
    then have nd: "\<not> hasDupe all opt index" using Cons.prems hasDupe_key [of all index opt] by blast
    have "length (all @ [opt]) \<le> Suc index" using Cons.prems by simp
    from Cons.IH [OF this] nd False show ?thesis by simp
  qed
qed

lemma dedupe_first_per_key: "dedupe options = first_per_key {} options"
  by (simp add: dedupe_def dedupe_reduce_first_per_key)

lemma first_per_key_keys:
  "key ` set (first_per_key seen xs) = key ` set xs - seen"
  by (induction xs arbitrary: seen) auto

lemma first_per_key_distinct: "distinct (map key (first_per_key seen xs))"
  by (induction xs arbitrary: seen) (auto simp: first_per_key_keys)

lemma first_per_key_subseq: "subseq (first_per_key seen xs) xs"
  by (induction xs arbitrary: seen) auto

lemma first_per_key_find:
  "e \<in> set (first_per_key seen xs) \<Longrightarrow> find (\<lambda>y. key y = key e) xs = Some e"
proof (induction xs arbitrary: seen)
  case Nil
  then show ?case by simp
next
  case (Cons x xs)
  show ?case
  proof (cases "e = x")
    case True
    then show ?thesis by simp
  next
    case False
    with Cons.prems have mem: "e \<in> set (first_per_key (insert (key x) seen) xs) \<or>
        (key x \<in> seen \<and> e \<in> set (first_per_key seen xs))"
      by (simp split: if_splits)
    then have "key e \<noteq> key x"
    proof
      assume "e \<in> set (first_per_key (insert (key x) seen) xs)"
      then have "key e \<in> key ` set (first_per_key (insert (key x) seen) xs)" by (rule imageI)
      then show ?thesis by (simp add: first_per_key_keys)
    next
      assume a: "key x \<in> seen \<and> e \<in> set (first_per_key seen xs)"
      then have "key e \<in> key ` set (first_per_key seen xs)" by (simp add: imageI)
      then have "key e \<notin> seen" by (simp add: first_per_key_keys)
      with a show ?thesis by auto
    qed
    moreover from mem have "find (\<lambda>y. key y = key e) xs = Some e"
      using Cons.IH by blast
    ultimately show ?thesis by simp
  qed
qed

lemma getFiltered_distinct: "getFiltered p = Inr base \<Longrightarrow> distinct (map key base)"
  by (auto simp: getFiltered_def dedupe_first_per_key first_per_key_distinct distinct_map_filter
      split: option.splits)

lemma addActual_distinct_iff:
  assumes fb: "getFiltered p = Inr base" and aa: "addActual x r p a = Inr opts"
  shows "distinct (map key opts) =
           (hasValue p (JStr a) = Inr False \<longrightarrow> key (createOption x r a) \<notin> key ` set base)"
proof -
  have d: "distinct (map key base)" using fb by (rule getFiltered_distinct)
  from fb obtain h where h: "hasValue p (JStr a) = Inr h" by (simp add: hasValue_def)
  show ?thesis
  proof (cases h)
    case True
    with aa fb h d show ?thesis by (simp add: addActual_def)
  next
    case False
    with aa fb h have "opts = base @ [createOption x r a]" by (simp add: addActual_def)
    with d h False show ?thesis by simp
  qed
qed

text \<open>
  Claim C3, as amended. For every option sequence, duplicates included, \<^const>\<open>dedupe\<close>
  keeps one entry per key, the first one, in the order of the input: it is
  \<^const>\<open>first_per_key\<close>, its keys are distinct and are the keys of the input, it is a
  subsequence of the input, and each entry it keeps is the first of the input with that
  key. The rendered options have distinct keys when they are the deduplicated external
  list, the filtered bucket, or the one synthesized entry of a disabled control. When a
  synthesized entry is appended to the filtered bucket, they have distinct keys exactly
  when that entry's key is no key of the bucket: \<^const>\<open>addActual\<close> tests the address
  values of the bucket, not its keys, and what it appends is not deduplicated.
\<close>

theorem dedupe_first_occurrence:
  "dedupe options = first_per_key {} options \<and>
   distinct (map key (dedupe options)) \<and>
   key ` set (dedupe options) = key ` set options \<and>
   subseq (dedupe options) options \<and>
   (\<forall>e \<in> set (dedupe options). find (\<lambda>y. key y = key e) options = Some e) \<and>
   (actualOptions x r p actual = Inr opts \<longrightarrow>
    distinct (map key opts) =
      (\<forall>a base. options_prop p = None \<longrightarrow> actual = Some a \<longrightarrow> \<not> flag (isDisabled p) False \<longrightarrow>
         getFiltered p = Inr base \<longrightarrow> hasValue p (JStr a) = Inr False \<longrightarrow>
         key (createOption x r a) \<notin> key ` set base))"
proof -
  have 1: "dedupe options = first_per_key {} options" by (rule dedupe_first_per_key)
  have 2: "distinct (map key (dedupe options))"
    by (simp only: dedupe_first_per_key first_per_key_distinct)
  have 3: "key ` set (dedupe options) = key ` set options"
    by (simp add: dedupe_first_per_key first_per_key_keys)
  have 4: "subseq (dedupe options) options"
    by (simp only: dedupe_first_per_key first_per_key_subseq)
  have 5: "\<forall>e \<in> set (dedupe options). find (\<lambda>y. key y = key e) options = Some e"
    unfolding dedupe_first_per_key using first_per_key_find by blast
  define fresh where "fresh =
      (\<forall>a base. options_prop p = None \<longrightarrow> actual = Some a \<longrightarrow> \<not> flag (isDisabled p) False \<longrightarrow>
         getFiltered p = Inr base \<longrightarrow> hasValue p (JStr a) = Inr False \<longrightarrow>
         key (createOption x r a) \<notin> key ` set base)"
  have 6: "distinct (map key opts) = fresh" if ao: "actualOptions x r p actual = Inr opts"
  proof (cases "options_prop p")
    case (Some os)
    with ao have "opts = dedupe (map (\<lambda>opt. createItem x opt None) os)"
      by (simp add: actualOptions_def)
    then have "distinct (map key opts)" by (simp only: dedupe_first_per_key first_per_key_distinct)
    moreover have fresh using Some by (simp add: fresh_def)
    ultimately show ?thesis by simp
  next
    case None
    show ?thesis
    proof (cases actual)
      case None
      with ao \<open>options_prop p = None\<close> have "getFiltered p = Inr opts"
        by (simp add: actualOptions_def)
      then have "distinct (map key opts)" by (rule getFiltered_distinct)
      moreover have fresh using None by (simp add: fresh_def)
      ultimately show ?thesis by simp
    next
      case (Some a)
      show ?thesis
      proof (cases "flag (isDisabled p) False")
        case True
        with ao Some \<open>options_prop p = None\<close> have "distinct (map key opts)"
          by (auto simp: actualOptions_def)
        moreover have fresh using True by (simp add: fresh_def)
        ultimately show ?thesis by simp
      next
        case False
        with ao Some \<open>options_prop p = None\<close> have aa: "addActual x r p a = Inr opts"
          by (simp add: actualOptions_def)
        then obtain base where fb: "getFiltered p = Inr base"
          by (cases "getFiltered p") (simp_all add: addActual_def)
        have "fresh = (hasValue p (JStr a) = Inr False \<longrightarrow> key (createOption x r a) \<notin> key ` set base)"
          unfolding fresh_def using \<open>options_prop p = None\<close> Some False fb by auto
        with addActual_distinct_iff [OF fb aa] show ?thesis by simp
      qed
    qed
  qed
  from 1 2 3 4 5 6 show ?thesis unfolding fresh_def by blast
qed

text \<open>
  The claim as stated fails: under the type \<^verbatim>\<open>allPlus\<close> the default \<^verbatim>\<open>5C1\<close> is no value of
  the bucket, whose one entry has the key \<^verbatim>\<open>5C1\<close> and another value, and the rendered
  list holds two entries with that key.
\<close>

theorem rendered_options_repeat_key:
  "render sample_ext []
     (sample_props\<lparr>type_prop := Some ''allPlus'', defaultValue := JStr ''5C1'',
        optionsAll := Some [''allPlus'' \<mapsto> [\<lparr>key = ''5C1'', value = Some ''5X1'', name = ''other''\<rparr>]]\<rparr>)
     fresh_state =
     Inr (Dropdown \<lparr>dd_defaultValue = JStr ''5C1'', dd_isDisabled = False, dd_isMultiple = None,
            dd_options = [\<lparr>key = ''5C1'', value = Some ''5X1'', name = ''other''\<rparr>,
                          \<lparr>key = ''5C1'', value = Some ''5C1'', name = ''5C1''\<rparr>],
            dd_value = JUndefined\<rparr>) \<and>
   map key [\<lparr>key = ''5C1'', value = Some ''5X1'', name = ''other''\<rparr>,
            \<lparr>key = ''5C1'', value = Some ''5C1'', name = ''5C1''\<rparr>] = [''5C1'', ''5C1'']"
proof -
  let ?e = "\<lparr>key = ''5C1'', value = Some ''5X1'', name = ''other''\<rparr>"
  let ?p = "sample_props\<lparr>type_prop := Some ''allPlus'', defaultValue := JStr ''5C1'',
        optionsAll := Some [''allPlus'' \<mapsto> [?e]]\<rparr>"
  have t: "type_or_default (Some ''allPlus'') = ''allPlus''" by (simp add: type_or_default_def)
  have d: "dedupe [?e] = [?e]" by (simp add: dedupe_def hasDupe_def)
  have f: "getFiltered ?p = Inr [?e]"
    by (simp add: getFiltered_def sample_props_fields t d keeps_def)
  have ho: "hasOptions ?p = Inr True" by (simp add: hasOptions_def sample_props_fields t)
  have h: "hasValue ?p (JStr ''5C1'') = Inr False"
    by (simp add: hasValue_def f same_address_def)
  have lo: "getLastOptionValue ?p = Inr (Some ?e)" by (simp add: getLastOptionValue_def f)
  have u: "usesDefault ?p = Inr True"
    by (simp add: usesDefault_def flag_def sample_props_fields h t)
  have ta: "transformToAddress sample_ext (JStr ''5C1'') = Some ''5C1''"
    by (simp add: transformToAddress_def sample_ext_def)
  have av: "actualValue sample_ext ?p fresh_state = Inr (Some ''5C1'')"
    unfolding actualValue_def lo u by (simp add: ta)
  have c: "createOption sample_ext [] ''5C1'' = \<lparr>key = ''5C1'', value = Some ''5C1'', name = ''5C1''\<rparr>"
    by (simp add: createOption_def sample_ext_def)
  have ao: "actualOptions sample_ext [] ?p (Some ''5C1'') =
      Inr [?e, \<lparr>key = ''5C1'', value = Some ''5C1'', name = ''5C1''\<rparr>]"
    by (simp add: actualOptions_def addActual_def f h c flag_def sample_props_fields)
  have "render sample_ext [] ?p fresh_state =
     Inr (Dropdown \<lparr>dd_defaultValue = JStr ''5C1'', dd_isDisabled = False, dd_isMultiple = None,
            dd_options = [?e, \<lparr>key = ''5C1'', value = Some ''5C1'', name = ''5C1''\<rparr>],
            dd_value = JUndefined\<rparr>)"
    by (simp add: render_def ho av ao flag_def sample_props_fields fresh_state_fields)
  then show ?thesis by simp
qed

theorem dedupe_first_occurrence_witness:
  "dedupe [alice, bob, alice_again, bob] = [alice, bob] \<and>
   find (\<lambda>y. key y = key alice) [alice, bob, alice_again, bob] = Some alice \<and>
   find (\<lambda>y. key y = key bob) [alice, bob, alice_again, bob] = Some bob \<and>
   actualOptions sample_ext [] sample_props (Some ''5C1'') =
     Inr [alice, bob, \<lparr>key = ''5C1'', value = Some ''5C1'', name = ''5C1''\<rparr>] \<and>
   distinct (map key [alice, bob, \<lparr>key = ''5C1'', value = Some ''5C1'', name = ''5C1''\<rparr>])"
proof -
  have d: "dedupe [alice, bob, alice_again, bob] = [alice, bob]"
    by (simp add: dedupe_def hasDupe_def alice_def bob_def alice_again_def)
  have d2: "dedupe [alice, bob] = [alice, bob]"
    by (simp add: dedupe_def hasDupe_def alice_def bob_def)
  have f: "getFiltered sample_props = Inr [alice, bob]"
    by (simp add: getFiltered_def sample_props_fields type_or_default_def DEFAULT_TYPE_def d2 keeps_def)
  have c: "createOption sample_ext [] ''5C1'' = \<lparr>key = ''5C1'', value = Some ''5C1'', name = ''5C1''\<rparr>"
    by (simp add: createOption_def sample_ext_def)
  have h: "hasValue sample_props (JStr ''5C1'') = Inr False"
    by (simp add: hasValue_def f same_address_def alice_def bob_def)
  have a: "actualOptions sample_ext [] sample_props (Some ''5C1'') =
     Inr [alice, bob, \<lparr>key = ''5C1'', value = Some ''5C1'', name = ''5C1''\<rparr>]"
    by (simp add: actualOptions_def addActual_def f h c flag_def sample_props_fields)
  from dedupe_first_occurrence [of "[alice, bob, alice_again, bob]" sample_ext "[]" sample_props
      "Some ''5C1''" "[alice, bob, \<lparr>key = ''5C1'', value = Some ''5C1'', name = ''5C1''\<rparr>]"]
  show ?thesis
    unfolding d a f h c by (simp add: alice_def bob_def alice_again_def)
qed

section \<open>The filtered bucket and its membership test\<close>

lemma same_address_JStr: "same_address v (JStr s) = (v = Some s)"
  by (cases "s = []") (simp_all add: same_address_def)

lemma same_address_JUndefined: "same_address v JUndefined = False"
  by (simp add: same_address_def)

lemma keeps_no_filter: "filter_prop p = None \<Longrightarrow> keeps p opt"
  by (simp add: keeps_def)

lemma keeps_filter:
  "filter_prop p = Some f \<Longrightarrow>
     keeps p opt = (\<exists>v. value opt = Some v \<and> v \<noteq> [] \<and> (v \<in> set f) = (\<not> flag (withExclude p) False))"
  by (auto simp: keeps_def split: option.splits)

lemma getFiltered_bucket:
  "optionsAll p = Some oa \<Longrightarrow> oa (type_or_default (type_prop p)) = Some bucket \<Longrightarrow>
     getFiltered p = Inr (filter (keeps p) (dedupe bucket))"
  by (simp add: getFiltered_def)

lemma hasValue_JStr:
  "getFiltered p = Inr fb \<Longrightarrow> hasValue p (JStr s) = Inr (\<exists>opt \<in> set fb. value opt = Some s)"
  by (simp add: hasValue_def list_ex_iff same_address_JStr)

text \<open>
  Claim C4, as amended. The filtered bucket is the type's option sequence deduplicated by
  key and then filtered. Without a filter every deduplicated entry stays, headers
  included. With a filter an entry stays only if it has a non-empty address value that
  passes the include or exclude test, so an entry with a \<^verbatim>\<open>null\<close> value (a section header)
  is always removed. A header never makes a has-value check for a string, or for
  \<^verbatim>\<open>undefined\<close>, true.
\<close>

theorem getFiltered_filter_semantics:
  assumes oa: "optionsAll p = Some oa"
    and bucket: "oa (type_or_default (type_prop p)) = Some bucket"
  shows "getFiltered p =
           Inr (filter (\<lambda>opt. case filter_prop p of
                                 None \<Rightarrow> True
                               | Some f \<Rightarrow>
                                   (case value opt of
                                      None \<Rightarrow> False
                                    | Some v \<Rightarrow> v \<noteq> [] \<and> (v \<in> set f) = (\<not> flag (withExclude p) False)))
                  (dedupe bucket)) \<and>
         (filter_prop p = None \<longrightarrow> getFiltered p = Inr (dedupe bucket)) \<and>
         (filter_prop p \<noteq> None \<longrightarrow>
            (\<forall>fb. getFiltered p = Inr fb \<longrightarrow> (\<forall>opt \<in> set fb. value opt \<noteq> None))) \<and>
         (\<forall>fb s. getFiltered p = Inr fb \<longrightarrow>
            hasValue p (JStr s) = Inr (\<exists>opt \<in> set fb. value opt = Some s) \<and>
            hasValue p JUndefined = Inr False)"
proof -
  have g: "getFiltered p = Inr (filter (keeps p) (dedupe bucket))"
    using oa bucket by (rule getFiltered_bucket)
  have k: "keeps p = (\<lambda>opt. case filter_prop p of
                                 None \<Rightarrow> True
                               | Some f \<Rightarrow>
                                   (case value opt of
                                      None \<Rightarrow> False
                                    | Some v \<Rightarrow> v \<noteq> [] \<and> (v \<in> set f) = (\<not> flag (withExclude p) False)))"
    by (rule ext) (auto simp: keeps_def split: option.splits)
  have 1: "getFiltered p =
           Inr (filter (\<lambda>opt. case filter_prop p of
                                 None \<Rightarrow> True
                               | Some f \<Rightarrow>
                                   (case value opt of
                                      None \<Rightarrow> False
                                    | Some v \<Rightarrow> v \<noteq> [] \<and> (v \<in> set f) = (\<not> flag (withExclude p) False)))
                  (dedupe bucket))"
    using g by (simp only: k)
  have 2: "getFiltered p = Inr (dedupe bucket)" if "filter_prop p = None"
    using g that by (simp add: keeps_no_filter)
  have 3: "value opt \<noteq> None" if "filter_prop p \<noteq> None" "getFiltered p = Inr fb" "opt \<in> set fb"
    for fb opt
  proof -
    from that(1) obtain f where f: "filter_prop p = Some f" by auto
    from that(2) g have "fb = filter (keeps p) (dedupe bucket)" by simp
    with that(3) have "keeps p opt" by simp
    then show ?thesis using f by (auto simp: keeps_filter)
  qed
  have 4: "hasValue p (JStr s) = Inr (\<exists>opt \<in> set fb. value opt = Some s)"
    if "getFiltered p = Inr fb" for fb s
    using that by (rule hasValue_JStr)
  have 5: "hasValue p JUndefined = Inr False" if "getFiltered p = Inr fb" for fb
    using that by (simp add: hasValue_def list_ex_iff same_address_JUndefined)
  from 1 2 3 4 5 show ?thesis by blast
qed

lemma sample_option_fields:
  "key alice = ''A''" "value alice = Some ''5A1''" "name alice = ''alice''"
  "key bob = ''B''" "value bob = Some ''5B1''" "name bob = ''bob''"
  "key alice_again = ''A''" "value alice_again = Some ''5A2''" "name alice_again = ''alice (old)''"
  "key accounts_header = ''header-accounts''" "value accounts_header = None"
  "name accounts_header = ''accounts''"
  by (simp_all add: alice_def bob_def alice_again_def accounts_header_def)

lemma dedupe_sample: "dedupe [accounts_header, alice, bob] = [accounts_header, alice, bob]"
  by (simp add: dedupe_def hasDupe_def accounts_header_def alice_def bob_def)

text \<open>
  The claim as stated fails: with a filter, the header of the deduplicated sequence is
  gone from the filtered bucket.
\<close>

theorem getFiltered_removes_header:
  "dedupe [accounts_header, alice, bob] = [accounts_header, alice, bob] \<and>
   getFiltered (sample_props\<lparr>optionsAll := Some [''all'' \<mapsto> [accounts_header, alice, bob]],
                             filter_prop := Some [''5A1'']\<rparr>) = Inr [alice]"
  by (simp add: dedupe_sample getFiltered_def sample_props_fields type_or_default_def DEFAULT_TYPE_def
      keeps_def flag_def sample_option_fields)

theorem getFiltered_filter_semantics_witness:
  "getFiltered (sample_props\<lparr>filter_prop := Some [''5B1''], withExclude := Some True\<rparr>) = Inr [alice] \<and>
   getFiltered sample_props = Inr [alice, bob] \<and>
   hasValue (sample_props\<lparr>optionsAll := Some [''all'' \<mapsto> [accounts_header, alice, bob]]\<rparr>) (JStr []) =
     Inr False"
proof -
  let ?p = "sample_props\<lparr>filter_prop := Some [''5B1''], withExclude := Some True\<rparr>"
  let ?q = "sample_props\<lparr>optionsAll := Some [''all'' \<mapsto> [accounts_header, alice, bob]]\<rparr>"
  have d2: "dedupe [alice, bob] = [alice, bob]"
    by (simp add: dedupe_def hasDupe_def alice_def bob_def)
  have t: "type_or_default None = ''all''"
    by (simp add: type_or_default_def DEFAULT_TYPE_def)
  have a: "getFiltered ?p = Inr [alice]"
    using getFiltered_filter_semantics [of ?p "[''all'' \<mapsto> [alice, bob]]" "[alice, bob]"]
    by (simp add: sample_props_fields t d2 flag_def sample_option_fields)
  have b: "getFiltered sample_props = Inr [alice, bob]"
    using getFiltered_filter_semantics [of sample_props "[''all'' \<mapsto> [alice, bob]]" "[alice, bob]"]
    by (simp add: sample_props_fields t d2)
  have c: "getFiltered ?q = Inr [accounts_header, alice, bob]"
    using getFiltered_filter_semantics [of ?q "[''all'' \<mapsto> [accounts_header, alice, bob]]"
        "[accounts_header, alice, bob]"]
    by (simp add: sample_props_fields t dedupe_sample)
  have "hasValue ?q (JStr []) = Inr False"
    using getFiltered_filter_semantics [of ?q "[''all'' \<mapsto> [accounts_header, alice, bob]]"
        "[accounts_header, alice, bob]"] c
    by (simp add: sample_props_fields t sample_option_fields)
  with a b show ?thesis by simp
qed

section \<open>The active value\<close>

lemma dedupe_alice_bob: "dedupe [alice, bob] = [alice, bob]"
  by (simp add: dedupe_def hasDupe_def sample_option_fields)

lemma type_or_default_None: "type_or_default None = ''all''"
  by (simp add: type_or_default_def DEFAULT_TYPE_def)

lemma hasValue_filtered:
  "getFiltered p = Inr fb \<Longrightarrow>
     hasValue p test = Inr (\<exists>opt \<in> set fb. same_address (value opt) test)"
  by (simp add: hasValue_def list_ex_iff)

lemma getLastOptionValue_last:
  "getFiltered p = Inr fb \<Longrightarrow>
     getLastOptionValue p = Inr (if fb = [] then None else Some (last fb))"
  by (simp add: getLastOptionValue_def last_conv_nth)

lemma usesDefault_filtered:
  "getFiltered p = Inr fb \<Longrightarrow>
     usesDefault p =
       Inr (flag (isDisabled p) False \<or>
            (truthy (defaultValue p) \<and>
             ((\<exists>opt \<in> set fb. same_address (value opt) (defaultValue p)) \<or>
              type_or_default (type_prop p) = ''allPlus'')))"
  by (simp add: usesDefault_def hasValue_filtered)

text \<open>
  Claim C1. With the filtered bucket \<open>fb\<close>, the active value is the normalized form of:
  the default value, when the control is disabled, or a default is supplied (truthy)
  and is the value of an entry of \<open>fb\<close> or the type is \<^verbatim>\<open>allPlus\<close>; else the last value
  of the state, when it is the value of an entry of \<open>fb\<close>; else the value of the last
  entry of \<open>fb\<close> (\<^verbatim>\<open>undefined\<close> when \<open>fb\<close> is empty).
\<close>

theorem actualValue_precedence:
  assumes fb: "getFiltered p = Inr fb"
  shows "actualValue x p st =
           Inr (transformToAddress x
             (if flag (isDisabled p) False \<or>
                 (truthy (defaultValue p) \<and>
                  ((\<exists>opt \<in> set fb. same_address (value opt) (defaultValue p)) \<or>
                   type_or_default (type_prop p) = ''allPlus''))
              then defaultValue p
              else if \<exists>opt \<in> set fb. same_address (value opt) (lastValue st)
              then lastValue st
              else if fb = [] then JUndefined
              else (case value (last fb) of None \<Rightarrow> JNull | Some v \<Rightarrow> JStr v)))"
proof -
  define d where "d = (flag (isDisabled p) False \<or>
            (truthy (defaultValue p) \<and>
             ((\<exists>opt \<in> set fb. same_address (value opt) (defaultValue p)) \<or>
              type_or_default (type_prop p) = ''allPlus'')))"
  define l where "l = (\<exists>opt \<in> set fb. same_address (value opt) (lastValue st))"
  have u: "usesDefault p = Inr d" unfolding d_def using fb by (rule usesDefault_filtered)
  have h: "hasValue p (lastValue st) = Inr l" unfolding l_def using fb by (rule hasValue_filtered)
  have o: "getLastOptionValue p = Inr (if fb = [] then None else Some (last fb))"
    using fb by (rule getLastOptionValue_last)
  have "actualValue x p st =
           Inr (transformToAddress x
             (if d then defaultValue p
              else if l then lastValue st
              else if fb = [] then JUndefined
              else (case value (last fb) of None \<Rightarrow> JNull | Some v \<Rightarrow> JStr v)))"
    unfolding actualValue_def o u h by (cases d; cases l; cases "fb = []") simp_all
  then show ?thesis unfolding d_def l_def .
qed

theorem actualValue_precedence_witness:
  "actualValue sample_ext sample_props fresh_state = Inr (Some ''5B1'') \<and>
   actualValue sample_ext sample_props (fresh_state\<lparr>lastValue := JStr ''5A1''\<rparr>) = Inr (Some ''5A1'') \<and>
   actualValue sample_ext (sample_props\<lparr>defaultValue := JStr ''5A1''\<rparr>)
     (fresh_state\<lparr>lastValue := JStr ''5B1''\<rparr>) = Inr (Some ''5A1'') \<and>
   actualValue sample_ext (sample_props\<lparr>filter_prop := Some [''5B1''], withExclude := Some True\<rparr>)
     fresh_state = Inr (Some ''5A1'')"
proof -
  let ?q = "sample_props\<lparr>defaultValue := JStr ''5A1''\<rparr>"
  let ?p = "sample_props\<lparr>filter_prop := Some [''5B1''], withExclude := Some True\<rparr>"
  have f: "getFiltered sample_props = Inr [alice, bob]"
    by (simp add: getFiltered_def sample_props_fields type_or_default_None dedupe_alice_bob keeps_def)
  have fq: "getFiltered ?q = Inr [alice, bob]"
    by (simp add: getFiltered_def sample_props_fields type_or_default_None dedupe_alice_bob keeps_def)
  have fp: "getFiltered ?p = Inr [alice]"
    by (simp add: getFiltered_def sample_props_fields type_or_default_None dedupe_alice_bob keeps_def
        flag_def sample_option_fields)
  have t: "transformToAddress sample_ext (JStr ''5A1'') = Some ''5A1''"
    "transformToAddress sample_ext (JStr ''5B1'') = Some ''5B1''"
    by (simp_all add: transformToAddress_def sample_ext_def)
  have 1: "actualValue sample_ext sample_props fresh_state = Inr (Some ''5B1'')"
    using actualValue_precedence [OF f, of sample_ext fresh_state]
    by (simp add: sample_props_fields fresh_state_def flag_def same_address_def sample_option_fields t)
  have 2: "actualValue sample_ext sample_props (fresh_state\<lparr>lastValue := JStr ''5A1''\<rparr>) =
      Inr (Some ''5A1'')"
    using actualValue_precedence [OF f, of sample_ext "fresh_state\<lparr>lastValue := JStr ''5A1''\<rparr>"]
    by (simp add: sample_props_fields fresh_state_def flag_def same_address_def sample_option_fields t)
  have 3: "actualValue sample_ext ?q (fresh_state\<lparr>lastValue := JStr ''5B1''\<rparr>) = Inr (Some ''5A1'')"
    using actualValue_precedence [OF fq, of sample_ext "fresh_state\<lparr>lastValue := JStr ''5B1''\<rparr>"]
    by (simp add: sample_props_fields fresh_state_def flag_def same_address_def sample_option_fields t)
  have 4: "actualValue sample_ext ?p fresh_state = Inr (Some ''5A1'')"
    using actualValue_precedence [OF fp, of sample_ext fresh_state]
    by (simp add: sample_props_fields fresh_state_def flag_def same_address_def sample_option_fields t)
  from 1 2 3 4 show ?thesis by simp
qed

section \<open>The rendered options of a disabled control\<close>

lemma hasOptions_filtered: "getFiltered p = Inr fb \<Longrightarrow> \<exists>ho. hasOptions p = Inr ho"
  by (auto simp: getFiltered_def hasOptions_def split: option.splits)

text \<open>
  Claim C7, as amended. When the control is disabled, no external option list is
  supplied and the default value normalizes to an address \<open>a\<close> (in the bucket or not),
  the rendered option list is the one synthesized entry for \<open>a\<close>, without the entries of
  the bucket, and the active value is \<open>a\<close>.
\<close>

theorem disabled_renders_single_option:
  assumes dis: "isDisabled p = Some True"
    and ext: "options_prop p = None"
    and fb: "getFiltered p = Inr fb"
    and dv: "transformToAddress x (defaultValue p) = Some a"
  shows "actualValue x p st = Inr (Some a) \<and>
         actualOptions x r p (Some a) = Inr [createOption x r a] \<and>
         (\<exists>d. render x r p st = Inr (Dropdown d) \<and> dd_options d = [createOption x r a])"
proof -
  have fl: "flag (isDisabled p) False" using dis by (simp add: flag_def)
  have u: "usesDefault p = Inr True" using fl by (simp add: usesDefault_def)
  obtain lo where lo: "getLastOptionValue p = Inr lo" using fb by (simp add: getLastOptionValue_def)
  have av: "actualValue x p st = Inr (Some a)"
    unfolding actualValue_def lo u using dv by simp
  have ao: "actualOptions x r p (Some a) = Inr [createOption x r a]"
    using ext fl by (simp add: actualOptions_def)
  obtain ho where ho: "hasOptions p = Inr ho" using hasOptions_filtered [OF fb] ..
  have "\<exists>d. render x r p st = Inr (Dropdown d) \<and> dd_options d = [createOption x r a]"
    using fl by (simp add: render_def ho av ao)
  with av ao show ?thesis by simp
qed

text \<open>
  The claim as stated fails: for the disabled control with the default \<^verbatim>\<open>5C1\<close>, which the
  bucket of \<^const>\<open>alice\<close> and \<^const>\<open>bob\<close> lacks, the rendered list is the synthesized
  entry alone.
\<close>

theorem disabled_render_omits_bucket:
  "getFiltered (sample_props\<lparr>isDisabled := Some True, defaultValue := JStr ''5C1''\<rparr>) = Inr [alice, bob] \<and>
   render sample_ext [] (sample_props\<lparr>isDisabled := Some True, defaultValue := JStr ''5C1''\<rparr>) fresh_state =
     Inr (Dropdown \<lparr>dd_defaultValue = JStr ''5C1'', dd_isDisabled = True, dd_isMultiple = None,
                    dd_options = [createOption sample_ext [] ''5C1''], dd_value = JUndefined\<rparr>) \<and>
   [createOption sample_ext [] ''5C1''] \<noteq> [alice, bob] @ [createOption sample_ext [] ''5C1'']"
proof -
  let ?p = "sample_props\<lparr>isDisabled := Some True, defaultValue := JStr ''5C1''\<rparr>"
  have f: "getFiltered ?p = Inr [alice, bob]"
    by (simp add: getFiltered_def sample_props_fields type_or_default_None dedupe_alice_bob keeps_def)
  have t: "transformToAddress sample_ext (JStr ''5C1'') = Some ''5C1''"
    by (simp add: transformToAddress_def sample_ext_def)
  have ho: "hasOptions ?p = Inr True"
    by (simp add: hasOptions_def sample_props_fields type_or_default_None)
  have lo: "getLastOptionValue ?p = Inr (Some bob)"
    by (simp add: getLastOptionValue_def f)
  have u: "usesDefault ?p = Inr True"
    by (simp add: usesDefault_def flag_def)
  have av: "actualValue sample_ext ?p fresh_state = Inr (Some ''5C1'')"
    unfolding actualValue_def lo u by (simp add: sample_props_fields t)
  have ao: "actualOptions sample_ext [] ?p (Some ''5C1'') = Inr [createOption sample_ext [] ''5C1'']"
    by (simp add: actualOptions_def sample_props_fields flag_def)
  have "render sample_ext [] ?p fresh_state =
     Inr (Dropdown \<lparr>dd_defaultValue = JStr ''5C1'', dd_isDisabled = True, dd_isMultiple = None,
                    dd_options = [createOption sample_ext [] ''5C1''], dd_value = JUndefined\<rparr>)"
    by (simp add: render_def ho av ao flag_def sample_props_fields fresh_state_fields)
  with f show ?thesis by simp
qed

theorem disabled_renders_single_option_witness:
  "actualValue sample_ext (sample_props\<lparr>isDisabled := Some True, defaultValue := JStr ''5C1''\<rparr>)
     fresh_state = Inr (Some ''5C1'') \<and>
   actualOptions sample_ext [] (sample_props\<lparr>isDisabled := Some True, defaultValue := JStr ''5C1''\<rparr>)
     (Some ''5C1'') = Inr [\<lparr>key = ''5C1'', value = Some ''5C1'', name = ''5C1''\<rparr>]"
proof -
  let ?p = "sample_props\<lparr>isDisabled := Some True, defaultValue := JStr ''5C1''\<rparr>"
  have d: "isDisabled ?p = Some True" by simp
  have e: "options_prop ?p = None" by (simp add: sample_props_fields)
  have f: "getFiltered ?p = Inr [alice, bob]"
    by (simp add: getFiltered_def sample_props_fields type_or_default_None dedupe_alice_bob keeps_def)
  have t: "transformToAddress sample_ext (defaultValue ?p) = Some ''5C1''"
    by (simp add: transformToAddress_def sample_ext_def)
  have c: "createOption sample_ext [] ''5C1'' = \<lparr>key = ''5C1'', value = Some ''5C1'', name = ''5C1''\<rparr>"
    by (simp add: createOption_def sample_ext_def)
  from disabled_renders_single_option [OF d e f t, of fresh_state "[]"] show ?thesis
    unfolding c by simp
qed

section \<open>The persisted preference store\<close>

lemma has_defaults_shape:
  assumes "has_defaults store"
  obtains kvs d where "readOptions store = JObj kvs" "map_of kvs ''defaults'' = Some (JObj d)"
proof -
  from assms obtain d where d: "get_prop (readOptions store) ''defaults'' = Inr (JObj d)"
    by (auto simp: has_defaults_def split: sum.splits jsval.splits)
  then obtain kvs where kvs: "readOptions store = JObj kvs"
    by (cases "readOptions store") simp_all
  with d have "map_of kvs ''defaults'' = Some (JObj d)"
    by (simp split: option.splits)
  with kvs show ?thesis by (rule that)
qed

lemma readOptions_JObj: "readOptions (JObj kvs) = JObj kvs"
  by (simp add: readOptions_def)

lemma getLastValue_has_defaults:
  assumes "readOptions store = JObj kvs" "map_of kvs ''defaults'' = Some (JObj d)"
  shows "getLastValue store t =
           Inr (case map_of d (type_or_default t) of None \<Rightarrow> JUndefined | Some v \<Rightarrow> v)"
  using assms by (simp add: getLastValue_def)

lemma setLastValue_has_defaults:
  assumes "readOptions store = JObj kvs" "map_of kvs ''defaults'' = Some (JObj d)"
  shows "setLastValue store t v =
           Inr (JObj (AList.update ''defaults''
                  (JObj (AList.update (type_or_default t) (JStr v) d)) kvs))"
  using assms by (simp add: setLastValue_def)

lemma set_then_get:
  assumes "has_defaults store"
  shows "\<exists>written. setLastValue store t v = Inr written \<and> has_defaults written \<and>
           getLastValue written t = Inr (JStr v)"
proof -
  from assms obtain kvs d where s: "readOptions store = JObj kvs"
    "map_of kvs ''defaults'' = Some (JObj d)" by (rule has_defaults_shape)
  let ?d = "AList.update (type_or_default t) (JStr v) d"
  let ?w = "JObj (AList.update ''defaults'' (JObj ?d) kvs)"
  have w: "setLastValue store t v = Inr ?w" using s by (rule setLastValue_has_defaults)
  have r: "readOptions ?w = ?w" by (rule readOptions_JObj)
  have m: "map_of (AList.update ''defaults'' (JObj ?d) kvs) ''defaults'' = Some (JObj ?d)"
    by (simp add: update_conv')
  have g: "getLastValue ?w t = Inr (JStr v)"
    using getLastValue_has_defaults [OF r m, of t] by (simp add: update_conv')
  have h: "has_defaults ?w" by (simp add: has_defaults_def r m)
  from w g h show ?thesis by simp
qed

lemma get_prop_truthy: "truthy v \<Longrightarrow> \<exists>r. get_prop v k = Inr r"
  by (cases v) simp_all

lemma getLastValue_raises:
  "(getLastValue store t = Inl TypeError) =
     (truthy store \<and> (get_prop store ''defaults'' = Inr JUndefined \<or>
                       get_prop store ''defaults'' = Inr JNull))"
proof (cases "truthy store")
  case False
  then show ?thesis by (simp add: getLastValue_def readOptions_def)
next
  case True
  then obtain d where d: "get_prop store ''defaults'' = Inr d" using get_prop_truthy by blast
  have "(get_prop d (type_or_default t) = Inl TypeError) = (d = JUndefined \<or> d = JNull)"
    by (cases d) simp_all
  with True d show ?thesis by (simp add: getLastValue_def readOptions_def)
qed

lemma has_defaults_iff:
  "has_defaults store =
     (\<exists>kvs d. readOptions store = JObj kvs \<and> map_of kvs ''defaults'' = Some (JObj d))"
proof
  assume "has_defaults store"
  then show "\<exists>kvs d. readOptions store = JObj kvs \<and> map_of kvs ''defaults'' = Some (JObj d)"
    by (rule has_defaults_shape) blast
next
  assume "\<exists>kvs d. readOptions store = JObj kvs \<and> map_of kvs ''defaults'' = Some (JObj d)"
  then show "has_defaults store" by (auto simp: has_defaults_def)
qed

lemma setLastValue_raises:
  "(setLastValue store t v = Inl TypeError) =
     (truthy store \<and>
      (\<exists>d. get_prop store ''defaults'' = Inr d \<and>
           (case d of JObj kvs \<Rightarrow> False | JArr vs \<Rightarrow> False | JBytes bs \<Rightarrow> False | _ \<Rightarrow> True)))"
proof (cases "truthy store")
  case False
  then show ?thesis by (simp add: setLastValue_def readOptions_def)
next
  case True
  then obtain d where d: "get_prop store ''defaults'' = Inr d" using get_prop_truthy by blast
  have "(case set_prop d (type_or_default t) (JStr v) of
           Inl e \<Rightarrow> Inl e
         | Inr d' \<Rightarrow> (case store of JObj kvs \<Rightarrow> Inr (JObj (AList.update ''defaults'' d' kvs))
                       | _ \<Rightarrow> Inr store)) = Inl TypeError
        \<longleftrightarrow> (case d of JObj kvs \<Rightarrow> False | JArr vs \<Rightarrow> False | JBytes bs \<Rightarrow> False | _ \<Rightarrow> True)"
    by (cases d; cases store) simp_all
  with True d show ?thesis by (simp add: setLastValue_def readOptions_def)
qed

lemma other_type_kept:
  assumes s: "readOptions store = JObj kvs" "map_of kvs ''defaults'' = Some (JObj d)"
    and w: "setLastValue store t v = Inr written"
    and ne: "type_or_default t' \<noteq> type_or_default t"
  shows "getLastValue written t' = getLastValue store t'"
proof -
  let ?d = "AList.update (type_or_default t) (JStr v) d"
  let ?w = "JObj (AList.update ''defaults'' (JObj ?d) kvs)"
  have "written = ?w" using setLastValue_has_defaults [OF s, of t v] w by simp
  moreover have "readOptions ?w = ?w" by (rule readOptions_JObj)
  moreover have "map_of (AList.update ''defaults'' (JObj ?d) kvs) ''defaults'' = Some (JObj ?d)"
    by (simp add: update_conv')
  ultimately have "getLastValue written t' =
      Inr (case map_of ?d (type_or_default t') of None \<Rightarrow> JUndefined | Some u \<Rightarrow> u)"
    using getLastValue_has_defaults [of ?w "AList.update ''defaults'' (JObj ?d) kvs" ?d t'] by simp
  also have "\<dots> = Inr (case map_of d (type_or_default t') of None \<Rightarrow> JUndefined | Some u \<Rightarrow> u)"
    using ne by (simp add: update_conv')
  also have "\<dots> = getLastValue store t'" using getLastValue_has_defaults [OF s, of t'] by simp
  finally show ?thesis .
qed

lemma getDerivedStateFromProps_catches:
  "\<not> truthy (lastValue st) \<Longrightarrow> getLastValue store (type_prop p) = Inl e \<Longrightarrow>
     getDerivedStateFromProps x store p st = None"
  by (simp add: getDerivedStateFromProps_def)

lemma onChange_raises:
  "filter_prop p = None \<Longrightarrow> setLastValue store (type_prop p) addr = Inl e \<Longrightarrow>
     onChange x store p addr = Inl e"
  by (simp add: onChange_def)

text \<open>
  Claim C9, as amended. Reading yields the stored structure, or the empty-defaults
  structure when nothing (or a falsy value) is stored, and an absent store behaves as
  the empty-defaults structure in both operations. When the store is absent or holds an
  object whose \<^verbatim>\<open>defaults\<close> is an object, reading the last value returns the type's entry
  of \<^verbatim>\<open>defaults\<close> (\<^verbatim>\<open>undefined\<close> when it has none) and writing stores the same structure
  with that one entry set, every other entry and property kept; neither raises. Any
  other stored structure is not taken for empty defaults: reading the last value raises
  a \<^verbatim>\<open>TypeError\<close> exactly when the stored value is truthy and has no \<^verbatim>\<open>defaults\<close>, writing
  raises exactly when the stored value is truthy and its \<^verbatim>\<open>defaults\<close> is absent, \<^verbatim>\<open>null\<close> or
  a primitive. \<^const>\<open>getDerivedStateFromProps\<close> catches the error of the read and returns
  \<^verbatim>\<open>null\<close>; \<^const>\<open>onChange\<close> lets the error of the write out.
\<close>

theorem store_operations:
  "readOptions store = (if truthy store then store else JObj [(''defaults'', JObj [])]) \<and>
   getLastValue JUndefined t = Inr JUndefined \<and>
   getLastValue JUndefined t = getLastValue (JObj [(''defaults'', JObj [])]) t \<and>
   setLastValue JUndefined t v = setLastValue (JObj [(''defaults'', JObj [])]) t v \<and>
   setLastValue JUndefined t v = Inr (JObj [(''defaults'', JObj [(type_or_default t, JStr v)])]) \<and>
   has_defaults store =
     (\<exists>kvs d. readOptions store = JObj kvs \<and> map_of kvs ''defaults'' = Some (JObj d)) \<and>
   (\<forall>kvs d. readOptions store = JObj kvs \<longrightarrow> map_of kvs ''defaults'' = Some (JObj d) \<longrightarrow>
      getLastValue store t =
        Inr (case map_of d (type_or_default t) of None \<Rightarrow> JUndefined | Some u \<Rightarrow> u) \<and>
      setLastValue store t v =
        Inr (JObj (AList.update ''defaults''
               (JObj (AList.update (type_or_default t) (JStr v) d)) kvs)) \<and>
      (\<forall>written t'. setLastValue store t v = Inr written \<longrightarrow>
         type_or_default t' \<noteq> type_or_default t \<longrightarrow>
         getLastValue written t' = getLastValue store t')) \<and>
   (has_defaults store \<longrightarrow>
      (\<exists>r. getLastValue store t = Inr r) \<and>
      (\<exists>written. setLastValue store t v = Inr written \<and> has_defaults written \<and>
         getLastValue written t = Inr (JStr v))) \<and>
   ((getLastValue store t = Inl TypeError) =
      (truthy store \<and> (get_prop store ''defaults'' = Inr JUndefined \<or>
                        get_prop store ''defaults'' = Inr JNull))) \<and>
   ((setLastValue store t v = Inl TypeError) =
      (truthy store \<and>
       (\<exists>d. get_prop store ''defaults'' = Inr d \<and>
            (case d of JObj kvs \<Rightarrow> False | JArr vs \<Rightarrow> False | JBytes bs \<Rightarrow> False | _ \<Rightarrow> True)))) \<and>
   (\<not> truthy (lastValue st) \<longrightarrow> getLastValue store (type_prop p) = Inl e \<longrightarrow>
      getDerivedStateFromProps x store p st = None) \<and>
   (filter_prop p = None \<longrightarrow> setLastValue store (type_prop p) addr = Inl e \<longrightarrow>
      onChange x store p addr = Inl e)"
proof -
  have 1: "readOptions store = (if truthy store then store else JObj [(''defaults'', JObj [])])"
    by (simp add: readOptions_def)
  have 2: "getLastValue JUndefined t = Inr JUndefined"
    by (simp add: getLastValue_def readOptions_def)
  have 3: "getLastValue JUndefined t = getLastValue (JObj [(''defaults'', JObj [])]) t"
    by (simp add: getLastValue_def readOptions_def)
  have 4: "setLastValue JUndefined t v = setLastValue (JObj [(''defaults'', JObj [])]) t v"
    by (simp add: setLastValue_def readOptions_def)
  have 5: "setLastValue JUndefined t v =
      Inr (JObj [(''defaults'', JObj [(type_or_default t, JStr v)])])"
    by (simp add: setLastValue_def readOptions_def)
  have 6: "has_defaults store \<longrightarrow>
      (\<exists>r. getLastValue store t = Inr r) \<and>
      (\<exists>written. setLastValue store t v = Inr written \<and> has_defaults written \<and>
         getLastValue written t = Inr (JStr v))"
  proof
    assume h: "has_defaults store"
    then obtain kvs d where "readOptions store = JObj kvs"
      "map_of kvs ''defaults'' = Some (JObj d)" by (rule has_defaults_shape)
    then have "\<exists>r. getLastValue store t = Inr r" using getLastValue_has_defaults by blast
    with set_then_get [OF h, of t v] show "(\<exists>r. getLastValue store t = Inr r) \<and>
      (\<exists>written. setLastValue store t v = Inr written \<and> has_defaults written \<and>
         getLastValue written t = Inr (JStr v))" by simp
  qed
  have 7: "has_defaults store =
     (\<exists>kvs d. readOptions store = JObj kvs \<and> map_of kvs ''defaults'' = Some (JObj d))"
    by (rule has_defaults_iff)
  have 8: "\<forall>kvs d. readOptions store = JObj kvs \<longrightarrow> map_of kvs ''defaults'' = Some (JObj d) \<longrightarrow>
      getLastValue store t =
        Inr (case map_of d (type_or_default t) of None \<Rightarrow> JUndefined | Some u \<Rightarrow> u) \<and>
      setLastValue store t v =
        Inr (JObj (AList.update ''defaults''
               (JObj (AList.update (type_or_default t) (JStr v) d)) kvs)) \<and>
      (\<forall>written t'. setLastValue store t v = Inr written \<longrightarrow>
         type_or_default t' \<noteq> type_or_default t \<longrightarrow>
         getLastValue written t' = getLastValue store t')"
  proof (intro allI impI)
    fix kvs d
    assume s: "readOptions store = JObj kvs" "map_of kvs ''defaults'' = Some (JObj d)"
    show "getLastValue store t =
        Inr (case map_of d (type_or_default t) of None \<Rightarrow> JUndefined | Some u \<Rightarrow> u) \<and>
      setLastValue store t v =
        Inr (JObj (AList.update ''defaults''
               (JObj (AList.update (type_or_default t) (JStr v) d)) kvs)) \<and>
      (\<forall>written t'. setLastValue store t v = Inr written \<longrightarrow>
         type_or_default t' \<noteq> type_or_default t \<longrightarrow>
         getLastValue written t' = getLastValue store t')"
      using getLastValue_has_defaults [OF s, of t] setLastValue_has_defaults [OF s, of t v]
        other_type_kept [OF s, of t v]
      by blast
  qed
  have 9: "(getLastValue store t = Inl TypeError) =
      (truthy store \<and> (get_prop store ''defaults'' = Inr JUndefined \<or>
                        get_prop store ''defaults'' = Inr JNull))"
    by (rule getLastValue_raises)
  have 10: "(setLastValue store t v = Inl TypeError) =
      (truthy store \<and>
       (\<exists>d. get_prop store ''defaults'' = Inr d \<and>
            (case d of JObj kvs \<Rightarrow> False | JArr vs \<Rightarrow> False | JBytes bs \<Rightarrow> False | _ \<Rightarrow> True)))"
    by (rule setLastValue_raises)
  have 11: "\<not> truthy (lastValue st) \<longrightarrow> getLastValue store (type_prop p) = Inl e \<longrightarrow>
      getDerivedStateFromProps x store p st = None"
    by (simp add: getDerivedStateFromProps_catches)
  have 12: "filter_prop p = None \<longrightarrow> setLastValue store (type_prop p) addr = Inl e \<longrightarrow>
      onChange x store p addr = Inl e"
    by (simp add: onChange_raises)
  from 1 2 3 4 5 7 8 6 9 10 11 12 show ?thesis by (intro conjI)
qed

text \<open>
  The claim as stated fails: for the stored object \<^verbatim>\<open>{}\<close>, which is not taken for empty
  defaults, reading and writing the last value raise.
\<close>

theorem malformed_store_raises:
  "getLastValue (JObj []) None = Inl TypeError \<and>
   setLastValue (JObj []) None ''5A1'' = Inl TypeError \<and>
   getLastValue JUndefined None = Inr JUndefined"
  by (simp add: getLastValue_def setLastValue_def readOptions_def)

theorem store_operations_witness:
  "has_defaults (JObj [(''defaults'', JObj [(''all'', JStr ''5B1'')])]) \<and>
   getLastValue (JObj [(''defaults'', JObj [(''all'', JStr ''5B1'')])]) None = Inr (JStr ''5B1'') \<and>
   setLastValue (JObj [(''defaults'', JObj [(''all'', JStr ''5B1'')])]) None ''5A1'' =
     Inr (JObj [(''defaults'', JObj [(''all'', JStr ''5A1'')])]) \<and>
   getLastValue (JObj [(''defaults'', JObj [(''all'', JStr ''5A1'')])]) None = Inr (JStr ''5A1'') \<and>
   setLastValue (JObj [(''seen'', JBool True),
       (''defaults'', JObj [(''account'', JStr ''5A9''), (''all'', JStr ''5B1'')])]) None ''5A1'' =
     Inr (JObj [(''seen'', JBool True),
       (''defaults'', JObj [(''account'', JStr ''5A9''), (''all'', JStr ''5A1'')])]) \<and>
   getLastValue (JObj [(''seen'', JBool True),
       (''defaults'', JObj [(''account'', JStr ''5A9''), (''all'', JStr ''5A1'')])]) (Some ''account'') =
     Inr (JStr ''5A9'') \<and>
   getDerivedStateFromProps sample_ext (JObj []) sample_props fresh_state = None \<and>
   onChange sample_ext (JObj []) sample_props ''5A1'' = Inl TypeError"
proof -
  let ?s = "JObj [(''defaults'', JObj [(''all'', JStr ''5B1'')])]"
  let ?d = "[(''account'', JStr ''5A9''), (''all'', JStr ''5B1'')]"
  let ?k = "[(''seen'', JBool True), (''defaults'', JObj ?d)]"
  let ?w = "JObj [(''seen'', JBool True),
       (''defaults'', JObj [(''account'', JStr ''5A9''), (''all'', JStr ''5A1'')])]"
  note at_s = store_operations [where store = ?s and t = None and v = "''5A1''" and x = sample_ext
        and p = sample_props and st = fresh_state and addr = "''5A1''" and e = TypeError]
  note at_k = store_operations [where store = "JObj ?k" and t = None and v = "''5A1''"
        and x = sample_ext and p = sample_props and st = fresh_state and addr = "''5A1''"
        and e = TypeError]
  note at_empty = store_operations [where store = "JObj []" and t = None and v = "''5A1''"
        and x = sample_ext and p = sample_props and st = fresh_state and addr = "''5A1''"
        and e = TypeError]
  have h: "has_defaults ?s" by (simp add: has_defaults_def readOptions_def)
  have w: "setLastValue ?s None ''5A1'' = Inr (JObj [(''defaults'', JObj [(''all'', JStr ''5A1'')])])"
    by (simp add: setLastValue_def readOptions_def type_or_default_None)
  have g: "getLastValue ?s None = Inr (JStr ''5B1'')"
    by (simp add: getLastValue_def readOptions_def type_or_default_None)
  from at_s h obtain written where "setLastValue ?s None ''5A1'' = Inr written"
    "getLastValue written None = Inr (JStr ''5A1'')" by blast
  with w have 1: "getLastValue (JObj [(''defaults'', JObj [(''all'', JStr ''5A1'')])]) None =
      Inr (JStr ''5A1'')" by simp
  have r: "readOptions (JObj ?k) = JObj ?k" by (rule readOptions_JObj)
  have m: "map_of ?k ''defaults'' = Some (JObj ?d)" by simp
  have u: "JObj (AList.update ''defaults''
      (JObj (AList.update (type_or_default None) (JStr ''5A1'') ?d)) ?k) = ?w"
    by (simp add: type_or_default_None)
  have ne: "type_or_default (Some ''account'') \<noteq> type_or_default None"
    by (simp add: type_or_default_def DEFAULT_TYPE_def)
  from at_k r m have "setLastValue (JObj ?k) None ''5A1'' =
      Inr (JObj (AList.update ''defaults''
        (JObj (AList.update (type_or_default None) (JStr ''5A1'') ?d)) ?k))" by blast
  then have 2: "setLastValue (JObj ?k) None ''5A1'' = Inr ?w" by (simp only: u)
  from at_k r m 2 ne have "getLastValue ?w (Some ''account'') =
      getLastValue (JObj ?k) (Some ''account'')" by blast
  moreover have "getLastValue (JObj ?k) (Some ''account'') = Inr (JStr ''5A9'')"
    by (simp add: getLastValue_def readOptions_def type_or_default_def)
  ultimately have 3: "getLastValue ?w (Some ''account'') = Inr (JStr ''5A9'')" by simp
  have gl: "getLastValue (JObj []) (type_prop sample_props) = Inl TypeError"
    by (simp add: getLastValue_def readOptions_def)
  have sl: "setLastValue (JObj []) (type_prop sample_props) ''5A1'' = Inl TypeError"
    by (simp add: setLastValue_def readOptions_def)
  have nl: "\<not> truthy (lastValue fresh_state)" by (simp add: fresh_state_fields)
  have nf: "filter_prop sample_props = None" by (simp add: sample_props_fields)
  from at_empty gl nl have 4:
    "getDerivedStateFromProps sample_ext (JObj []) sample_props fresh_state = None" by blast
  from at_empty sl nf have 5: "onChange sample_ext (JObj []) sample_props ''5A1'' = Inl TypeError"
    by blast
  from h g w 1 2 3 4 5 show ?thesis by (intro conjI)
qed

section \<open>Selection changes and the last value\<close>

lemma onChange_filtered:
  assumes fb: "getFiltered p = Inr fb" and cb: "has_onChange p"
    and st: "(if filter_prop p = None then setLastValue store (type_prop p) addr else Inr store) =
               Inr store'"
  shows "onChange x store p addr =
           Inr (store',
                Some (if addr \<noteq> [] \<and>
                         ((\<exists>opt \<in> set fb. value opt = Some addr) \<or>
                          (type_prop p = Some ''allPlus'' \<and> isAddress x addr))
                      then transformToAccountId x addr else None))"
proof -
  have h: "hasValue p (JStr addr) = Inr (\<exists>opt \<in> set fb. value opt = Some addr)"
    using fb by (rule hasValue_JStr)
  show ?thesis unfolding onChange_def st h using cb by simp
qed

text \<open>
  Claim C2. For a single-select change with the address \<open>addr\<close>, a caller that supplied
  \<^verbatim>\<open>onChange\<close>, the filtered bucket \<open>fb\<close> and, when no filter is set, a store that is
  absent or has its \<^verbatim>\<open>defaults\<close>: without a filter the new store is the one
  \<^const>\<open>setLastValue\<close> writes, which holds \<open>addr\<close> as the last value of the type; with a
  filter the store is unchanged. The caller's \<^verbatim>\<open>onChange\<close> gets the canonical address
  when \<open>addr\<close> is non-empty and is a value of \<open>fb\<close>, or the type is \<^verbatim>\<open>allPlus\<close> and
  \<open>addr\<close> is an address; it gets \<^verbatim>\<open>null\<close> otherwise, so for every \<open>addr\<close> that is no value
  of \<open>fb\<close> under another type.
\<close>

theorem onChange_contract:
  assumes fb: "getFiltered p = Inr fb"
    and cb: "has_onChange p"
    and wf: "filter_prop p = None \<longrightarrow> has_defaults store"
  shows "\<exists>store'. onChange x store p addr =
           Inr (store',
                Some (if addr \<noteq> [] \<and>
                         ((\<exists>opt \<in> set fb. value opt = Some addr) \<or>
                          (type_prop p = Some ''allPlus'' \<and> isAddress x addr))
                      then transformToAccountId x addr else None)) \<and>
           (filter_prop p = None \<longrightarrow>
              setLastValue store (type_prop p) addr = Inr store' \<and>
              getLastValue store' (type_prop p) = Inr (JStr addr)) \<and>
           (filter_prop p \<noteq> None \<longrightarrow> store' = store) \<and>
           ((\<forall>opt \<in> set fb. value opt \<noteq> Some addr) \<and> type_prop p \<noteq> Some ''allPlus'' \<longrightarrow>
              onChange x store p addr = Inr (store', Some None))"
proof (cases "filter_prop p = None")
  case True
  with wf have "has_defaults store" by simp
  then obtain written where w: "setLastValue store (type_prop p) addr = Inr written"
    "getLastValue written (type_prop p) = Inr (JStr addr)"
    using set_then_get [of store "type_prop p" addr] by blast
  have "(if filter_prop p = None then setLastValue store (type_prop p) addr else Inr store) =
      Inr written" using True w by simp
  from onChange_filtered [OF fb cb this, of x] True w show ?thesis
    by (intro exI [of _ written]) simp
next
  case False
  then obtain f where f: "filter_prop p = Some f" by auto
  then have "(if filter_prop p = None then setLastValue store (type_prop p) addr else Inr store) =
      Inr store" by simp
  from onChange_filtered [OF fb cb this, of x] f show ?thesis
    by (intro exI [of _ store]) simp
qed

theorem onChange_contract_witness:
  "onChange sample_ext JUndefined sample_props ''5A1'' =
     Inr (JObj [(''defaults'', JObj [(''all'', JStr ''5A1'')])], Some (Some ''5A1'')) \<and>
   onChange sample_ext JUndefined sample_props ''5Z9'' =
     Inr (JObj [(''defaults'', JObj [(''all'', JStr ''5Z9'')])], Some None) \<and>
   onChange sample_ext JUndefined (sample_props\<lparr>type_prop := Some ''allPlus'',
       optionsAll := Some [''allPlus'' \<mapsto> [alice, bob]]\<rparr>) ''5Z9'' =
     Inr (JObj [(''defaults'', JObj [(''allPlus'', JStr ''5Z9'')])], Some (Some ''5Z9'')) \<and>
   onChange sample_ext JUndefined (sample_props\<lparr>filter_prop := Some [''5A1'']\<rparr>) ''5B1'' =
     Inr (JUndefined, Some None)"
proof -
  let ?q = "sample_props\<lparr>type_prop := Some ''allPlus'',
       optionsAll := Some [''allPlus'' \<mapsto> [alice, bob]]\<rparr>"
  let ?p = "sample_props\<lparr>filter_prop := Some [''5A1'']\<rparr>"
  have f: "getFiltered sample_props = Inr [alice, bob]"
    by (simp add: getFiltered_def sample_props_fields type_or_default_None dedupe_alice_bob keeps_def)
  have fq: "getFiltered ?q = Inr [alice, bob]"
    by (simp add: getFiltered_def sample_props_fields type_or_default_def dedupe_alice_bob keeps_def)
  have fp: "getFiltered ?p = Inr [alice]"
    by (simp add: getFiltered_def sample_props_fields type_or_default_None dedupe_alice_bob keeps_def
        flag_def sample_option_fields)
  have h: "has_defaults JUndefined" by (simp add: has_defaults_def readOptions_def)
  have s: "setLastValue JUndefined None v = Inr (JObj [(''defaults'', JObj [(''all'', JStr v)])])"
    "setLastValue JUndefined (Some ''allPlus'') v =
       Inr (JObj [(''defaults'', JObj [(''allPlus'', JStr v)])])" for v
    by (simp_all add: setLastValue_def readOptions_def type_or_default_def DEFAULT_TYPE_def)
  have t: "transformToAccountId sample_ext ''5A1'' = Some ''5A1''"
    "transformToAccountId sample_ext ''5Z9'' = Some ''5Z9''"
    by (simp_all add: transformToAccountId_def transformToAddress_def sample_ext_def)
  have i: "isAddress sample_ext ''5Z9''" by (simp add: sample_ext_def)
  have 1: "onChange sample_ext JUndefined sample_props ''5A1'' =
     Inr (JObj [(''defaults'', JObj [(''all'', JStr ''5A1'')])], Some (Some ''5A1''))"
    using onChange_contract [OF f, of JUndefined sample_ext "''5A1''"] h
    by (auto simp: sample_props_fields s t sample_option_fields)
  have 2: "onChange sample_ext JUndefined sample_props ''5Z9'' =
     Inr (JObj [(''defaults'', JObj [(''all'', JStr ''5Z9'')])], Some None)"
    using onChange_contract [OF f, of JUndefined sample_ext "''5Z9''"] h
    by (auto simp: sample_props_fields s t sample_option_fields)
  have 3: "onChange sample_ext JUndefined ?q ''5Z9'' =
     Inr (JObj [(''defaults'', JObj [(''allPlus'', JStr ''5Z9'')])], Some (Some ''5Z9''))"
    using onChange_contract [OF fq, of JUndefined sample_ext "''5Z9''"] h
    by (auto simp: sample_props_fields s t i sample_option_fields)
  have 4: "onChange sample_ext JUndefined ?p ''5B1'' = Inr (JUndefined, Some None)"
    using onChange_contract [OF fp, of JUndefined sample_ext "''5B1''"]
    by (auto simp: sample_props_fields sample_option_fields)
  from 1 2 3 4 show ?thesis by simp
qed

lemma onChange_store:
  assumes "onChange x store p a = Inr (store', rep)"
  shows "if filter_prop p = None then setLastValue store (type_prop p) a = Inr store'
         else store' = store"
  using assms by (auto simp: onChange_def split: if_splits sum.splits)

lemma getDerivedStateFromProps_lastValue:
  assumes "getDerivedStateFromProps x store p st = Some st'"
  shows "if truthy (lastValue st) then lastValue st' = lastValue st
         else getLastValue store (type_prop p) = Inr (lastValue st')"
proof -
  obtain lv where lv: "(if truthy (lastValue st) then Inr (lastValue st)
      else getLastValue store (type_prop p)) = Inr lv"
    using assms by (cases "if truthy (lastValue st) then Inr (lastValue st)
      else getLastValue store (type_prop p)") (simp_all add: getDerivedStateFromProps_def)
  have "lastValue st' = lv"
    using assms unfolding getDerivedStateFromProps_def lv
    by (auto split: jsval.splits sum.splits)
  with lv show ?thesis by (auto split: if_splits)
qed

text \<open>
  Claim C6, as amended. An address \<open>a\<close> selected with no filter, on a store that is
  absent or has its \<^verbatim>\<open>defaults\<close>, is persisted as the last value of the type; a later
  selection made while a filter is set leaves the store as it is, so \<open>a\<close> is still read
  back once the filter is removed. On the next resolution cycle the state's last value
  is \<open>a\<close> when the state held none before (a new component); a state that holds one
  already keeps it.
\<close>

theorem last_value_round_trip:
  assumes wf: "has_defaults store"
    and nf: "filter_prop p = None"
    and sel: "onChange x store p a = Inr (store1, rep1)"
    and fl: "filter_prop q \<noteq> None"
    and sel2: "onChange x store1 q b = Inr (store2, rep2)"
    and nxt: "getDerivedStateFromProps x store2 p st = Some st'"
  shows "getLastValue store1 (type_prop p) = Inr (JStr a) \<and>
         store2 = store1 \<and>
         (if truthy (lastValue st) then lastValue st' = lastValue st else lastValue st' = JStr a)"
proof -
  from onChange_store [OF sel] nf have w: "setLastValue store (type_prop p) a = Inr store1"
    by simp
  from set_then_get [OF wf, of "type_prop p" a] w
  have g: "getLastValue store1 (type_prop p) = Inr (JStr a)" by auto
  from onChange_store [OF sel2] fl have e: "store2 = store1" by simp
  from getDerivedStateFromProps_lastValue [OF nxt] g e
  have "if truthy (lastValue st) then lastValue st' = lastValue st else lastValue st' = JStr a"
    by (auto split: if_splits)
  with g e show ?thesis by simp
qed

text \<open>
  The claim as stated fails: a component that resolved \<^verbatim>\<open>5B1\<close> from the store when it
  was mounted keeps \<^verbatim>\<open>5B1\<close> as its last value on the resolution cycle after \<^verbatim>\<open>5A1\<close>
  was selected and persisted.
\<close>

theorem resolved_last_value_is_kept:
  "getDerivedStateFromProps sample_ext (JObj [(''defaults'', JObj [(''all'', JStr ''5B1'')])])
     sample_props fresh_state = Some \<lparr>lastValue = JStr ''5B1'', value_state = JUndefined\<rparr> \<and>
   onChange sample_ext (JObj [(''defaults'', JObj [(''all'', JStr ''5B1'')])]) sample_props ''5A1'' =
     Inr (JObj [(''defaults'', JObj [(''all'', JStr ''5A1'')])], Some (Some ''5A1'')) \<and>
   getDerivedStateFromProps sample_ext (JObj [(''defaults'', JObj [(''all'', JStr ''5A1'')])])
     sample_props \<lparr>lastValue = JStr ''5B1'', value_state = JUndefined\<rparr> =
     Some \<lparr>lastValue = JStr ''5B1'', value_state = JUndefined\<rparr>"
proof -
  have f: "getFiltered sample_props = Inr [alice, bob]"
    by (simp add: getFiltered_def sample_props_fields type_or_default_None dedupe_alice_bob keeps_def)
  have h: "hasValue sample_props (JStr ''5A1'') = Inr True"
    using hasValue_JStr [OF f, of "''5A1''"] by (simp add: sample_option_fields)
  have t: "transformToAccountId sample_ext ''5A1'' = Some ''5A1''"
    by (simp add: transformToAccountId_def transformToAddress_def sample_ext_def)
  have u: "toAddress sample_ext JUndefined = Inr None" by (simp add: sample_ext_def)
  have 1: "getDerivedStateFromProps sample_ext (JObj [(''defaults'', JObj [(''all'', JStr ''5B1'')])])
     sample_props fresh_state = Some \<lparr>lastValue = JStr ''5B1'', value_state = JUndefined\<rparr>"
    by (simp add: getDerivedStateFromProps_def fresh_state_fields sample_props_fields
        getLastValue_def readOptions_def type_or_default_None u js_of_address_def)
  have 2: "onChange sample_ext (JObj [(''defaults'', JObj [(''all'', JStr ''5B1'')])]) sample_props
     ''5A1'' = Inr (JObj [(''defaults'', JObj [(''all'', JStr ''5A1'')])], Some (Some ''5A1''))"
    by (simp add: onChange_def sample_props_fields setLastValue_def readOptions_def
        type_or_default_None h t)
  have 3: "getDerivedStateFromProps sample_ext (JObj [(''defaults'', JObj [(''all'', JStr ''5A1'')])])
     sample_props \<lparr>lastValue = JStr ''5B1'', value_state = JUndefined\<rparr> =
     Some \<lparr>lastValue = JStr ''5B1'', value_state = JUndefined\<rparr>"
    by (simp add: getDerivedStateFromProps_def sample_props_fields u js_of_address_def)
  from 1 2 3 show ?thesis by simp
qed

theorem last_value_round_trip_witness:
  "getLastValue (JObj [(''defaults'', JObj [(''all'', JStr ''5A1'')])]) None = Inr (JStr ''5A1'') \<and>
   getDerivedStateFromProps sample_ext (JObj [(''defaults'', JObj [(''all'', JStr ''5A1'')])])
     sample_props fresh_state = Some \<lparr>lastValue = JStr ''5A1'', value_state = JUndefined\<rparr>"
proof -
  let ?s1 = "JObj [(''defaults'', JObj [(''all'', JStr ''5A1'')])]"
  let ?q = "sample_props\<lparr>filter_prop := Some [''5A1'']\<rparr>"
  let ?st' = "\<lparr>lastValue = JStr ''5A1'', value_state = JUndefined\<rparr>"
  have f: "getFiltered sample_props = Inr [alice, bob]"
    by (simp add: getFiltered_def sample_props_fields type_or_default_None dedupe_alice_bob keeps_def)
  have fq: "getFiltered ?q = Inr [alice]"
    by (simp add: getFiltered_def sample_props_fields type_or_default_None dedupe_alice_bob keeps_def
        flag_def sample_option_fields)
  have h: "hasValue sample_props (JStr ''5A1'') = Inr True"
    using hasValue_JStr [OF f, of "''5A1''"] by (simp add: sample_option_fields)
  have hq: "hasValue ?q (JStr ''5B1'') = Inr False"
    using hasValue_JStr [OF fq, of "''5B1''"] by (simp add: sample_option_fields)
  have t: "transformToAccountId sample_ext ''5A1'' = Some ''5A1''"
    by (simp add: transformToAccountId_def transformToAddress_def sample_ext_def)
  have u: "toAddress sample_ext JUndefined = Inr None" by (simp add: sample_ext_def)
  have wf: "has_defaults JUndefined" by (simp add: has_defaults_def readOptions_def)
  have nf: "filter_prop sample_props = None" by (simp add: sample_props_fields)
  have sel: "onChange sample_ext JUndefined sample_props ''5A1'' = Inr (?s1, Some (Some ''5A1''))"
    by (simp add: onChange_def sample_props_fields setLastValue_def readOptions_def
        type_or_default_None h t)
  have fl: "filter_prop ?q \<noteq> None" by simp
  have sel2: "onChange sample_ext ?s1 ?q ''5B1'' = Inr (?s1, Some None)"
    by (simp add: onChange_def sample_props_fields hq)
  have nxt: "getDerivedStateFromProps sample_ext ?s1 sample_props fresh_state = Some ?st'"
    by (simp add: getDerivedStateFromProps_def fresh_state_fields sample_props_fields
        getLastValue_def readOptions_def type_or_default_None u js_of_address_def)
  from last_value_round_trip [OF wf nf sel fl sel2 nxt] nxt show ?thesis
    by (simp add: sample_props_fields)
qed

section \<open>Search\<close>

lemma matchesQuery_value: "matchesQuery ql e \<Longrightarrow> \<exists>v. value e = Some v \<and> v \<noteq> []"
  by (cases "value e") (simp_all add: matchesQuery_def)

lemma transformToAccountId_nonempty: "transformToAccountId x q = Some a \<Longrightarrow> a \<noteq> []"
  by (auto simp: transformToAccountId_def split: if_splits option.splits)

lemma map_fst_zip_upt: "map fst (zip ms [0..<length ms]) = ms"
  by (simp add: map_fst_zip)

lemma dropHeaders_all_values:
  assumes "\<forall>e \<in> set ms. value e \<noteq> None"
  shows "dropHeaders ms = ms"
proof -
  have "keepsMatch ms pr" if "pr \<in> set (zip ms [0..<length ms])" for pr
  proof -
    obtain e i where pr: "pr = (e, i)" by (cases pr)
    with that have "e \<in> set ms" by (auto dest: set_zip_leftD)
    with assms have "value e \<noteq> None" by simp
    with pr show ?thesis by (simp add: keepsMatch_def)
  qed
  then have "filter (keepsMatch ms) (zip ms [0..<length ms]) = zip ms [0..<length ms]"
    by (simp add: filter_id_conv)
  then show ?thesis by (simp add: dropHeaders_def map_fst_zip_upt)
qed

lemma dropHeaders_single_header: "value e = None \<Longrightarrow> dropHeaders [e] = []"
  by (simp add: dropHeaders_def keepsMatch_def)

lemma dropHeaders_Nil: "dropHeaders [] = []"
  by (simp add: dropHeaders_def)

lemma searchMatches_cases:
  "searchMatches x r p opts q =
     (let ms = filter (matchesQuery (toLowerCase (trim q))) opts in
      if flag (isInput p) True \<and> ms = [] then
        (case transformToAccountId x (trim q) of
           None \<Rightarrow> ([], r)
         | Some a \<Rightarrow> ([fst (saveRecent x r a)], snd (saveRecent x r a)))
      else (ms, r))"
  by (auto simp: searchMatches_def Let_def split: option.splits prod.splits)

text \<open>
  Claim C5. For a query that matches no option by name or address: with the
  input-as-address mode off the search returns no match and leaves the registry as it
  is, whatever the query normalizes to; with the mode on and the trimmed query
  normalizing to the address \<open>a\<close>, the search returns the one option
  \<^verbatim>\<open>keyring.saveRecent(a).option\<close>, which carries \<open>a\<close> as the registry makes it, and the
  registry is the one after \<^verbatim>\<open>saveRecent\<close>.
\<close>

theorem search_fallback:
  assumes nomatch: "filter (matchesQuery (toLowerCase (trim q))) opts = []"
  shows "(\<not> flag (isInput p) True \<longrightarrow> onSearch x r p opts q = ([], r)) \<and>
         (flag (isInput p) True \<longrightarrow> transformToAccountId x (trim q) = Some a \<longrightarrow>
            value (fst (saveRecent x r a)) = Some a \<longrightarrow>
            onSearch x r p opts q = ([fst (saveRecent x r a)], snd (saveRecent x r a)) \<and>
            map value (fst (onSearch x r p opts q)) = [Some a])"
proof -
  have 1: "onSearch x r p opts q = ([], r)" if "\<not> flag (isInput p) True"
    using that nomatch by (simp add: onSearch_def searchMatches_cases dropHeaders_Nil)
  have 2: "onSearch x r p opts q = ([fst (saveRecent x r a)], snd (saveRecent x r a)) \<and>
            map value (fst (onSearch x r p opts q)) = [Some a]"
    if i: "flag (isInput p) True" and t: "transformToAccountId x (trim q) = Some a"
      and v: "value (fst (saveRecent x r a)) = Some a"
  proof -
    have "searchMatches x r p opts q = ([fst (saveRecent x r a)], snd (saveRecent x r a))"
      using i t nomatch by (simp add: searchMatches_cases)
    moreover have "dropHeaders [fst (saveRecent x r a)] = [fst (saveRecent x r a)]"
      using v by (simp add: dropHeaders_all_values)
    ultimately show ?thesis using v by (simp add: onSearch_def)
  qed
  from 1 2 show ?thesis by blast
qed

theorem search_fallback_witness:
  "onSearch sample_ext [] sample_props [alice, bob] ''  5Zz '' =
     ([\<lparr>key = ''5Zz'', value = Some ''5Zz'', name = ''5Zz''\<rparr>], [''5Zz'']) \<and>
   onSearch sample_ext [] (sample_props\<lparr>isInput := Some False\<rparr>) [alice, bob] ''  5Zz '' = ([], [])"
proof -
  have q: "trim ''  5Zz '' = ''5Zz''" by (simp add: trim_def is_space_def)
  have l: "toLowerCase ''5Zz'' = ''5zz''" by (simp add: toLowerCase_def)
  have n: "filter (matchesQuery (toLowerCase (trim ''  5Zz ''))) [alice, bob] = []"
    unfolding q l by (simp add: matchesQuery_def sample_option_fields toLowerCase_def)
  have t: "transformToAccountId sample_ext (trim ''  5Zz '') = Some ''5Zz''"
    unfolding q by (simp add: transformToAccountId_def transformToAddress_def sample_ext_def)
  have s: "saveRecent sample_ext [] ''5Zz'' =
      (\<lparr>key = ''5Zz'', value = Some ''5Zz'', name = ''5Zz''\<rparr>, [''5Zz''])"
    by (simp add: sample_ext_def)
  have 1: "onSearch sample_ext [] sample_props [alice, bob] ''  5Zz '' =
     ([\<lparr>key = ''5Zz'', value = Some ''5Zz'', name = ''5Zz''\<rparr>], [''5Zz''])"
    using search_fallback [OF n, of sample_props sample_ext "[]" "''5Zz''"] t
    by (simp add: s flag_def sample_props_fields)
  have 2: "onSearch sample_ext [] (sample_props\<lparr>isInput := Some False\<rparr>) [alice, bob] ''  5Zz '' =
     ([], [])"
    using search_fallback [OF n, of "sample_props\<lparr>isInput := Some False\<rparr>" sample_ext "[]" "''5Zz''"]
    by (simp add: flag_def)
  from 1 2 show ?thesis by simp
qed

text \<open>
  Claim C10. Every entry the search returns has an address value that is not \<^verbatim>\<open>null\<close>:
  the matcher admits only options with a truthy value, and a pushed option without a
  value would be the last one and is dropped. When the registry's option for a
  non-empty address carries a non-empty value, as \<^verbatim>\<open>saveRecent\<close> makes it, every entry
  has a non-empty value and the last filter removes nothing: the result is the match
  sequence.
\<close>

theorem search_results_have_addresses:
  "(\<forall>e \<in> set (fst (onSearch x r p opts q)). value e \<noteq> None) \<and>
   ((\<forall>r a. a \<noteq> [] \<longrightarrow> (\<exists>v. value (fst (saveRecent x r a)) = Some v \<and> v \<noteq> [])) \<longrightarrow>
      (\<forall>e \<in> set (fst (onSearch x r p opts q)). \<exists>v. value e = Some v \<and> v \<noteq> []) \<and>
      dropHeaders (fst (searchMatches x r p opts q)) = fst (searchMatches x r p opts q) \<and>
      onSearch x r p opts q = searchMatches x r p opts q)"
proof -
  define ms where "ms = filter (matchesQuery (toLowerCase (trim q))) opts"
  have mv: "\<exists>v. value e = Some v \<and> v \<noteq> []" if "e \<in> set ms" for e
    using that matchesQuery_value unfolding ms_def by auto
  then have mn: "\<forall>e \<in> set ms. value e \<noteq> None" by auto
  have os: "onSearch x r p opts q =
      (dropHeaders (fst (searchMatches x r p opts q)), snd (searchMatches x r p opts q))"
    by (simp add: onSearch_def split: prod.splits)
  consider (plain) "searchMatches x r p opts q = (ms, r)"
    | (none) "searchMatches x r p opts q = ([], r)"
    | (pushed) a where "transformToAccountId x (trim q) = Some a"
        "searchMatches x r p opts q = ([fst (saveRecent x r a)], snd (saveRecent x r a))"
    unfolding searchMatches_cases ms_def [symmetric]
    by (cases "flag (isInput p) True \<and> ms = []"; cases "transformToAccountId x (trim q)")
      (auto simp: Let_def)
  then show ?thesis
  proof cases
    case plain
    have "dropHeaders ms = ms" using mn by (rule dropHeaders_all_values)
    with plain os mv mn show ?thesis by auto
  next
    case none
    with os show ?thesis by (simp add: dropHeaders_Nil)
  next
    case pushed
    let ?o = "fst (saveRecent x r a)"
    have ne: "a \<noteq> []" using pushed(1) by (rule transformToAccountId_nonempty)
    have 1: "\<forall>e \<in> set (fst (onSearch x r p opts q)). value e \<noteq> None"
    proof (cases "value ?o")
      case None
      then show ?thesis using os pushed(2) by (simp add: dropHeaders_single_header)
    next
      case (Some v)
      then have "dropHeaders [?o] = [?o]" by (simp add: dropHeaders_all_values)
      with Some os pushed(2) show ?thesis by simp
    qed
    have 2: "(\<forall>e \<in> set (fst (onSearch x r p opts q)). \<exists>v. value e = Some v \<and> v \<noteq> []) \<and>
      dropHeaders (fst (searchMatches x r p opts q)) = fst (searchMatches x r p opts q) \<and>
      onSearch x r p opts q = searchMatches x r p opts q"
      if reg: "\<forall>r a. a \<noteq> [] \<longrightarrow> (\<exists>v. value (fst (saveRecent x r a)) = Some v \<and> v \<noteq> [])"
    proof -
      from reg ne obtain v where v: "value ?o = Some v" "v \<noteq> []" by blast
      then have "dropHeaders [?o] = [?o]" by (simp add: dropHeaders_all_values)
      with v os pushed(2) show ?thesis by simp
    qed
    from 1 2 show ?thesis by blast
  qed
qed

theorem search_results_have_addresses_witness:
  "fst (onSearch sample_ext [] sample_props [accounts_header, alice, bob] ''B'') = [bob] \<and>
   value bob = Some ''5B1'' \<and>
   fst (onSearch sample_ext [] sample_props [accounts_header, alice, bob] ''5Zz'') =
     [\<lparr>key = ''5Zz'', value = Some ''5Zz'', name = ''5Zz''\<rparr>] \<and>
   dropHeaders [bob] = [bob]"
proof -
  have q: "trim ''B'' = ''B''" "trim ''5Zz'' = ''5Zz''" by (simp_all add: trim_def is_space_def)
  have l: "toLowerCase ''B'' = ''b''" "toLowerCase ''5Zz'' = ''5zz''"
    by (simp_all add: toLowerCase_def)
  have m: "filter (matchesQuery ''b'') [accounts_header, alice, bob] = [bob]"
    "filter (matchesQuery ''5zz'') [accounts_header, alice, bob] = []"
    by (simp_all add: matchesQuery_def sample_option_fields toLowerCase_def)
  have t: "transformToAccountId sample_ext ''5Zz'' = Some ''5Zz''"
    by (simp add: transformToAccountId_def transformToAddress_def sample_ext_def)
  have s: "saveRecent sample_ext rr aa = (\<lparr>key = aa, value = Some aa, name = aa\<rparr>, aa # rr)" for rr aa
    by (simp add: sample_ext_def)
  have 1: "searchMatches sample_ext [] sample_props [accounts_header, alice, bob] ''B'' = ([bob], [])"
    unfolding searchMatches_cases q l m by simp
  have 2: "searchMatches sample_ext [] sample_props [accounts_header, alice, bob] ''5Zz'' =
      ([\<lparr>key = ''5Zz'', value = Some ''5Zz'', name = ''5Zz''\<rparr>], [''5Zz''])"
    unfolding searchMatches_cases q l m by (simp add: t s flag_def sample_props_fields)
  from search_results_have_addresses [of sample_ext "[]" sample_props "[accounts_header, alice, bob]" "''B''"]
    search_results_have_addresses [of sample_ext "[]" sample_props "[accounts_header, alice, bob]" "''5Zz''"]
  show ?thesis
    by (simp add: s 1 2 sample_option_fields)
qed

section \<open>Failures of the address normalization\<close>

lemma transformToAddress_fails: "canonicalization_fails x v \<Longrightarrow> transformToAddress x v = None"
  by (auto simp: canonicalization_fails_def transformToAddress_def split: sum.splits option.splits)

lemma transformToAccountId_fails:
  "canonicalization_fails x (JStr s) \<Longrightarrow> transformToAccountId x s = None"
  by (simp add: transformToAccountId_def transformToAddress_fails)

lemma get_prop_error: "get_prop v k = Inl e \<Longrightarrow> e = TypeError"
  by (cases v) simp_all

lemma set_prop_error: "set_prop v k w = Inl e \<Longrightarrow> e = TypeError"
  by (cases v) simp_all

lemma setLastValue_error: "setLastValue store t v = Inl e \<Longrightarrow> e = TypeError"
  by (auto simp: setLastValue_def Let_def split: sum.splits jsval.splits
      dest: get_prop_error set_prop_error)

lemma getFiltered_error: "getFiltered p = Inl e \<Longrightarrow> e = TypeError"
  by (auto simp: getFiltered_def split: option.splits)

lemma hasValue_error: "hasValue p test = Inl e \<Longrightarrow> e = TypeError"
  by (auto simp: hasValue_def split: sum.splits dest: getFiltered_error)

lemma getLastOptionValue_error: "getLastOptionValue p = Inl e \<Longrightarrow> e = TypeError"
  by (auto simp: getLastOptionValue_def split: sum.splits dest: getFiltered_error)

lemma usesDefault_error: "usesDefault p = Inl e \<Longrightarrow> e = TypeError"
  by (auto simp: usesDefault_def split: if_splits sum.splits dest: hasValue_error)

lemma actualValue_error: "actualValue x p st = Inl e \<Longrightarrow> e = TypeError"
  by (auto simp: actualValue_def split: sum.splits bool.splits
      dest: getLastOptionValue_error usesDefault_error hasValue_error)

lemma addActual_error: "addActual x r p a = Inl e \<Longrightarrow> e = TypeError"
  by (auto simp: addActual_def split: sum.splits bool.splits
      dest: getFiltered_error hasValue_error)

lemma actualOptions_error: "actualOptions x r p actual = Inl e \<Longrightarrow> e = TypeError"
  by (auto simp: actualOptions_def split: option.splits if_splits
      dest: getFiltered_error addActual_error)

lemma hasOptions_error: "hasOptions p = Inl e \<Longrightarrow> e = TypeError"
  by (auto simp: hasOptions_def split: option.splits if_splits)

lemma render_error: "render x r p st = Inl e \<Longrightarrow> e = TypeError"
  by (auto simp: render_def split: sum.splits if_splits
      dest: hasOptions_error actualValue_error actualOptions_error)

lemma onChange_error: "onChange x store p addr = Inl e \<Longrightarrow> e = TypeError"
  by (auto simp: onChange_def split: sum.splits if_splits
      dest: setLastValue_error hasValue_error)

lemma onChange_reports_null:
  assumes "canonicalization_fails x (JStr addr)" "onChange x store p addr = Inr (store', Some rep)"
  shows "rep = None"
  using assms
  by (auto simp: onChange_def transformToAccountId_fails split: sum.splits if_splits)

lemma map_filter_append: "List.map_filter f (xs @ ys) = List.map_filter f xs @ List.map_filter f ys"
  by (simp add: List.map_filter_def)

lemma onChangeMulti_drops:
  "canonicalization_fails x (JStr a) \<Longrightarrow>
     onChangeMulti x p (as @ a # bs) = onChangeMulti x p (as @ bs)"
  by (simp add: onChangeMulti_def map_filter_append transformToAccountId_fails
      List.map_filter_simps)

lemma map_toAddress_length: "map_toAddress x vs = Inr as \<Longrightarrow> length as = length vs"
  by (induction vs arbitrary: as) (auto split: sum.splits)

lemma map_toAddress_nth:
  "map_toAddress x vs = Inr as \<Longrightarrow> i < length vs \<Longrightarrow> canonicalization_fails x (vs ! i) \<Longrightarrow>
     \<not> truthy (as ! i)"
proof (induction vs arbitrary: as i)
  case Nil
  then show ?case by simp
next
  case (Cons v vs)
  from Cons.prems(1) obtain a as' where a: "toAddress x v = Inr a"
    and as': "map_toAddress x vs = Inr as'" and as: "as = js_of_address a # as'"
    by (auto split: sum.splits)
  show ?case
  proof (cases i)
    case 0
    with Cons.prems(3) a as show ?thesis
      by (auto simp: canonicalization_fails_def js_of_address_def split: option.splits)
  next
    case (Suc j)
    with Cons.prems(2,3) Cons.IH [OF as', of j] as show ?thesis by simp
  qed
qed

lemma getDerivedStateFromProps_scalar_fails:
  assumes "canonicalization_fails x (value_prop p)" "\<forall>vs. value_prop p \<noteq> JArr vs"
    and "getDerivedStateFromProps x store p st = Some st'"
  shows "value_state st' = JUndefined"
  using assms
  by (cases "value_prop p")
    (auto simp: getDerivedStateFromProps_def canonicalization_fails_def js_of_address_def
      split: sum.splits option.splits if_splits)

lemma getDerivedStateFromProps_array:
  assumes "value_prop p = JArr vs" "getDerivedStateFromProps x store p st = Some st'"
  shows "\<exists>as. value_state st' = JArr as \<and> map_toAddress x vs = Inr as"
  using assms by (auto simp: getDerivedStateFromProps_def split: sum.splits)

lemma searchMatches_fails:
  "canonicalization_fails x (JStr (trim q)) \<Longrightarrow>
     searchMatches x r p opts q = (filter (matchesQuery (toLowerCase (trim q))) opts, r)"
  by (simp add: searchMatches_cases transformToAccountId_fails Let_def)

lemma actualValue_returns:
  assumes fb: "getFiltered p = Inr fb"
  shows "\<exists>a. actualValue x p st = Inr a"
proof -
  obtain d where u: "usesDefault p = Inr d" using usesDefault_filtered [OF fb] by blast
  obtain l where h: "hasValue p (lastValue st) = Inr l" using hasValue_filtered [OF fb] by blast
  obtain lo where o: "getLastOptionValue p = Inr lo" using getLastOptionValue_last [OF fb] by blast
  show ?thesis unfolding actualValue_def o u h by (cases d; cases l) simp_all
qed

lemma actualOptions_returns:
  assumes fb: "getFiltered p = Inr fb"
  shows "\<exists>opts. actualOptions x r p actual = Inr opts"
proof -
  have "\<exists>opts. addActual x r p a = Inr opts" for a
  proof -
    obtain h where h: "hasValue p (JStr a) = Inr h" using hasValue_filtered [OF fb] by blast
    show ?thesis unfolding addActual_def fb h by (cases h) simp_all
  qed
  then show ?thesis using fb
    by (cases "options_prop p"; cases actual) (simp_all add: actualOptions_def)
qed

lemma render_returns:
  assumes fb: "getFiltered p = Inr fb"
  shows "\<exists>res. render x r p st = Inr res"
proof -
  obtain ho where ho: "hasOptions p = Inr ho" using hasOptions_filtered [OF fb] ..
  obtain a where a: "actualValue x p st = Inr a" using actualValue_returns [OF fb] ..
  obtain opts where opts: "actualOptions x r p a = Inr opts" using actualOptions_returns [OF fb] ..
  show ?thesis by (simp add: render_def ho a opts)
qed

lemma onChange_returns:
  assumes fb: "getFiltered p = Inr fb" and wf: "filter_prop p = None \<longrightarrow> has_defaults store"
  shows "\<exists>res. onChange x store p addr = Inr res"
proof -
  obtain store' where st:
    "(if filter_prop p = None then setLastValue store (type_prop p) addr else Inr store) = Inr store'"
    using wf set_then_get [of store "type_prop p" addr] by (cases "filter_prop p = None") auto
  show ?thesis
  proof (cases "has_onChange p")
    case True
    from onChange_filtered [OF fb True st] show ?thesis by blast
  next
    case False
    then show ?thesis unfolding onChange_def st by simp
  qed
qed

text \<open>
  Claim C8. Whatever \<^verbatim>\<open>toAddress\<close> does on an input, throwing included, no call site
  lets its exception out, and an input it gives no address for leaves an absent
  value: \<^verbatim>\<open>null\<close> from \<^const>\<open>transformToAddress\<close> and \<^const>\<open>transformToAccountId\<close>; for the
  value prop no new state (the \<^verbatim>\<open>null\<close> of the \<^verbatim>\<open>catch\<close>) or a state without a value, and
  a falsy element for an element of an array; \<^verbatim>\<open>null\<close> reported by \<^const>\<open>onChange\<close>; the
  address left out by \<^const>\<open>onChangeMulti\<close>; no option added by the search. \<^const>\<open>render\<close>
  and \<^const>\<open>onChange\<close> never raise \<^const>\<open>Thrown\<close>, and they return whenever the bucket
  of the type is there and, for a write, the store is absent or has its defaults.
\<close>

theorem canonicalization_failure_is_absent_value:
  "(canonicalization_fails x v \<longrightarrow> transformToAddress x v = None) \<and>
   (canonicalization_fails x (JStr s) \<longrightarrow> transformToAccountId x s = None) \<and>
   (canonicalization_fails x (value_prop p) \<longrightarrow> (\<forall>vs. value_prop p \<noteq> JArr vs) \<longrightarrow>
      (\<forall>st'. getDerivedStateFromProps x store p st = Some st' \<longrightarrow> value_state st' = JUndefined)) \<and>
   (\<forall>vs st'. value_prop p = JArr vs \<longrightarrow> getDerivedStateFromProps x store p st = Some st' \<longrightarrow>
      (\<exists>as. value_state st' = JArr as \<and> length as = length vs \<and>
         (\<forall>i < length vs. canonicalization_fails x (vs ! i) \<longrightarrow> \<not> truthy (as ! i)))) \<and>
   render x r p st \<noteq> Inl Thrown \<and>
   onChange x store p addr \<noteq> Inl Thrown \<and>
   (\<forall>fb. getFiltered p = Inr fb \<longrightarrow> (\<exists>res. render x r p st = Inr res)) \<and>
   (\<forall>fb. getFiltered p = Inr fb \<longrightarrow> (filter_prop p = None \<longrightarrow> has_defaults store) \<longrightarrow>
      (\<exists>res. onChange x store p addr = Inr res)) \<and>
   (canonicalization_fails x (JStr addr) \<longrightarrow>
      (\<forall>store' rep. onChange x store p addr = Inr (store', Some rep) \<longrightarrow> rep = None)) \<and>
   (canonicalization_fails x (JStr a) \<longrightarrow>
      onChangeMulti x p (as @ a # bs) = onChangeMulti x p (as @ bs)) \<and>
   (canonicalization_fails x (JStr (trim q)) \<longrightarrow>
      onSearch x r p opts q = (dropHeaders (filter (matchesQuery (toLowerCase (trim q))) opts), r))"
proof -
  have 1: "canonicalization_fails x v \<longrightarrow> transformToAddress x v = None"
    by (simp add: transformToAddress_fails)
  have 2: "canonicalization_fails x (JStr s) \<longrightarrow> transformToAccountId x s = None"
    by (simp add: transformToAccountId_fails)
  have 3: "canonicalization_fails x (value_prop p) \<longrightarrow> (\<forall>vs. value_prop p \<noteq> JArr vs) \<longrightarrow>
      (\<forall>st'. getDerivedStateFromProps x store p st = Some st' \<longrightarrow> value_state st' = JUndefined)"
    by (intro allI impI) (rule getDerivedStateFromProps_scalar_fails)
  have 4: "\<forall>vs st'. value_prop p = JArr vs \<longrightarrow> getDerivedStateFromProps x store p st = Some st' \<longrightarrow>
      (\<exists>as. value_state st' = JArr as \<and> length as = length vs \<and>
         (\<forall>i < length vs. canonicalization_fails x (vs ! i) \<longrightarrow> \<not> truthy (as ! i)))"
  proof (intro allI impI)
    fix vs st'
    assume "value_prop p = JArr vs" "getDerivedStateFromProps x store p st = Some st'"
    then obtain as where as: "value_state st' = JArr as" "map_toAddress x vs = Inr as"
      using getDerivedStateFromProps_array by blast
    from as(2) have "length as = length vs" by (rule map_toAddress_length)
    moreover have "\<forall>i < length vs. canonicalization_fails x (vs ! i) \<longrightarrow> \<not> truthy (as ! i)"
      using map_toAddress_nth [OF as(2)] by blast
    ultimately show "\<exists>as. value_state st' = JArr as \<and> length as = length vs \<and>
         (\<forall>i < length vs. canonicalization_fails x (vs ! i) \<longrightarrow> \<not> truthy (as ! i))"
      using as(1) by blast
  qed
  have 5: "render x r p st \<noteq> Inl Thrown" using render_error [of x r p st Thrown] by auto
  have 6: "onChange x store p addr \<noteq> Inl Thrown"
    using onChange_error [of x store p addr Thrown] by auto
  have 7: "\<forall>fb. getFiltered p = Inr fb \<longrightarrow> (\<exists>res. render x r p st = Inr res)"
    by (intro allI impI) (rule render_returns)
  have 8: "\<forall>fb. getFiltered p = Inr fb \<longrightarrow> (filter_prop p = None \<longrightarrow> has_defaults store) \<longrightarrow>
      (\<exists>res. onChange x store p addr = Inr res)"
    by (intro allI impI) (rule onChange_returns)
  have 9: "canonicalization_fails x (JStr addr) \<longrightarrow>
      (\<forall>store' rep. onChange x store p addr = Inr (store', Some rep) \<longrightarrow> rep = None)"
    by (intro allI impI) (rule onChange_reports_null)
  have 10: "canonicalization_fails x (JStr a) \<longrightarrow>
      onChangeMulti x p (as @ a # bs) = onChangeMulti x p (as @ bs)"
    by (simp add: onChangeMulti_drops)
  have 11: "canonicalization_fails x (JStr (trim q)) \<longrightarrow>
      onSearch x r p opts q = (dropHeaders (filter (matchesQuery (toLowerCase (trim q))) opts), r)"
    by (simp add: onSearch_def searchMatches_fails)
  from 1 2 3 4 5 6 7 8 9 10 11 show ?thesis by (intro conjI)
qed

theorem canonicalization_failure_is_absent_value_witness:
  "canonicalization_fails sample_ext (JStr ''boom'') \<and>
   toAddress sample_ext (JStr ''boom'') = Inl Thrown \<and>
   transformToAddress sample_ext (JStr ''boom'') = None \<and>
   transformToAccountId sample_ext ''boom'' = None \<and>
   getDerivedStateFromProps sample_ext JUndefined (sample_props\<lparr>value_prop := JStr ''boom''\<rparr>)
     fresh_state = None \<and>
   getDerivedStateFromProps sample_ext JUndefined (sample_props\<lparr>value_prop := JStr ''x''\<rparr>)
     fresh_state = Some \<lparr>lastValue = JUndefined, value_state = JUndefined\<rparr> \<and>
   getDerivedStateFromProps sample_ext JUndefined
     (sample_props\<lparr>value_prop := JArr [JStr ''5A1'', JStr ''x'']\<rparr>) fresh_state =
     Some \<lparr>lastValue = JUndefined, value_state = JArr [JStr ''5A1'', JUndefined]\<rparr> \<and>
   onChange sample_ext JUndefined
     (sample_props\<lparr>optionsAll := Some [''all'' \<mapsto> [\<lparr>key = ''X'', value = Some ''boom'', name = ''bad''\<rparr>]]\<rparr>)
     ''boom'' = Inr (JObj [(''defaults'', JObj [(''all'', JStr ''boom'')])], Some None) \<and>
   onChangeMulti sample_ext sample_props ([''5A1''] @ ''boom'' # [''5B1'']) = Some [''5A1'', ''5B1''] \<and>
   onSearch sample_ext [] sample_props [alice, bob] '' boom '' = ([], [])"
proof -
  let ?bad = "\<lparr>key = ''X'', value = Some ''boom'', name = ''bad''\<rparr>"
  let ?p = "sample_props\<lparr>optionsAll := Some [''all'' \<mapsto> [?bad]]\<rparr>"
  have c: "canonicalization_fails sample_ext (JStr ''boom'')"
    "canonicalization_fails sample_ext (JStr ''x'')"
    by (simp_all add: canonicalization_fails_def sample_ext_def)
  have ta: "toAddress sample_ext (JStr ''boom'') = Inl Thrown"
    "toAddress sample_ext (JStr ''x'') = Inr None"
    "toAddress sample_ext (JStr ''5A1'') = Inr (Some ''5A1'')"
    by (simp_all add: sample_ext_def)
  have q: "trim '' boom '' = ''boom''" by (simp add: trim_def is_space_def)
  have l: "toLowerCase ''boom'' = ''boom''" by (simp add: toLowerCase_def)
  have m: "filter (matchesQuery ''boom'') [alice, bob] = []"
    by (simp add: matchesQuery_def sample_option_fields toLowerCase_def)
  have d: "dedupe [?bad] = [?bad]" by (simp add: dedupe_def hasDupe_def)
  have f: "getFiltered ?p = Inr [?bad]"
    by (simp add: getFiltered_def sample_props_fields type_or_default_None d keeps_def)
  have w: "setLastValue JUndefined None ''boom'' = Inr (JObj [(''defaults'', JObj [(''all'', JStr ''boom'')])])"
    by (simp add: setLastValue_def readOptions_def type_or_default_None)
  have h: "hasValue ?p (JStr ''boom'') = Inr True"
    using hasValue_JStr [OF f, of "''boom''"] by simp
  have oc: "\<exists>rep. onChange sample_ext JUndefined ?p ''boom'' =
      Inr (JObj [(''defaults'', JObj [(''all'', JStr ''boom'')])], Some rep)"
    by (simp add: onChange_def sample_props_fields w h)
  have g1: "getDerivedStateFromProps sample_ext JUndefined (sample_props\<lparr>value_prop := JStr ''boom''\<rparr>)
     fresh_state = None"
    by (simp add: getDerivedStateFromProps_def fresh_state_fields sample_props_fields
        getLastValue_def readOptions_def ta)
  have g2: "\<exists>lv v. getDerivedStateFromProps sample_ext JUndefined (sample_props\<lparr>value_prop := JStr ''x''\<rparr>)
     fresh_state = Some \<lparr>lastValue = JUndefined, value_state = v\<rparr>"
    by (simp add: getDerivedStateFromProps_def fresh_state_fields sample_props_fields
        getLastValue_def readOptions_def ta)
  have g3: "\<exists>w. getDerivedStateFromProps sample_ext JUndefined
     (sample_props\<lparr>value_prop := JArr [JStr ''5A1'', JStr ''x'']\<rparr>) fresh_state =
     Some \<lparr>lastValue = JUndefined, value_state = JArr [JStr ''5A1'', w]\<rparr>"
    by (simp add: getDerivedStateFromProps_def fresh_state_fields sample_props_fields
        getLastValue_def readOptions_def ta js_of_address_def)
  have om: "onChangeMulti sample_ext sample_props [''5A1'', ''5B1''] = Some [''5A1'', ''5B1'']"
    by (simp add: onChangeMulti_def sample_props_fields transformToAccountId_def
        transformToAddress_def sample_ext_def List.map_filter_simps)
  have dn: "dropHeaders [] = []" by (rule dropHeaders_Nil)
  note thm1 = canonicalization_failure_is_absent_value [of sample_ext "JStr ''boom''" "''boom''"
      "sample_props\<lparr>value_prop := JStr ''x''\<rparr>" JUndefined fresh_state "[]" "''boom''" "''boom''"
      "[''5A1'']" "[''5B1'']" "'' boom ''" "[alice, bob]"]
  note thm2 = canonicalization_failure_is_absent_value [of sample_ext "JStr ''boom''" "''boom''"
      "sample_props\<lparr>value_prop := JArr [JStr ''5A1'', JStr ''x'']\<rparr>" JUndefined fresh_state "[]"
      "''boom''" "''boom''" "[''5A1'']" "[''5B1'']" "'' boom ''" "[alice, bob]"]
  note thm3 = canonicalization_failure_is_absent_value [of sample_ext "JStr ''boom''" "''boom''"
      ?p JUndefined fresh_state "[]" "''boom''" "''boom''"
      "[''5A1'']" "[''5B1'']" "'' boom ''" "[alice, bob]"]
  note thm0 = canonicalization_failure_is_absent_value [of sample_ext "JStr ''boom''" "''boom''"
      sample_props JUndefined fresh_state "[]" "''boom''" "''boom''"
      "[''5A1'']" "[''5B1'']" "'' boom ''" "[alice, bob]", unfolded q l m dn]
  have 1: "transformToAddress sample_ext (JStr ''boom'') = None"
    "transformToAccountId sample_ext ''boom'' = None"
    using thm1 c by simp_all
  have 2: "getDerivedStateFromProps sample_ext JUndefined (sample_props\<lparr>value_prop := JStr ''x''\<rparr>)
     fresh_state = Some \<lparr>lastValue = JUndefined, value_state = JUndefined\<rparr>"
    using thm1 c g2 by auto
  have 3: "getDerivedStateFromProps sample_ext JUndefined
     (sample_props\<lparr>value_prop := JArr [JStr ''5A1'', JStr ''x'']\<rparr>) fresh_state =
     Some \<lparr>lastValue = JUndefined, value_state = JArr [JStr ''5A1'', JUndefined]\<rparr>"
    by (simp add: getDerivedStateFromProps_def fresh_state_fields sample_props_fields
        getLastValue_def readOptions_def ta js_of_address_def)
  have 4: "onChange sample_ext JUndefined ?p ''boom'' =
      Inr (JObj [(''defaults'', JObj [(''all'', JStr ''boom'')])], Some None)"
    using thm3 c oc by auto
  have 5: "onChangeMulti sample_ext sample_props ([''5A1''] @ ''boom'' # [''5B1'']) =
      Some [''5A1'', ''5B1'']"
    using thm0 c om by simp
  have 6: "onSearch sample_ext [] sample_props [alice, bob] '' boom '' = ([], [])"
    using thm0 c by simp
  from c(1) ta(1) 1 g1 2 3 4 5 6 show ?thesis by simp
qed

end
